theory Spec2Isabelle
  imports Complex_Main "HOL-Library.Word"
begin

section \<open>Python values and exceptions\<close>

text \<open>
  \<open>capture.get\<close> returns a Python float (a C double). The code applies \<open>int(...)\<close> to such
  values; \<open>int\<close> truncates a finite float toward zero, raises \<open>ValueError\<close> on NaN and
  \<open>OverflowError\<close> on an infinity. Every finite double is a rational number, so the finite
  values are modelled as \<open>rat\<close>.
\<close>

datatype pyfloat = Finite rat | NaN | PosInf | NegInf

datatype pyval = PyInt int | PyFloat pyfloat

datatype py_error = ValueError | OverflowError | KeyError | TypeError

definition bind_err :: "py_error + 'a \<Rightarrow> ('a \<Rightarrow> py_error + 'b) \<Rightarrow> py_error + 'b" where
  "bind_err m f = (case m of Inl e \<Rightarrow> Inl e | Inr v \<Rightarrow> f v)"

definition trunc_toward_zero :: "rat \<Rightarrow> int" where
  "trunc_toward_zero q = (if 0 \<le> q then \<lfloor>q\<rfloor> else \<lceil>q\<rceil>)"

text \<open>Python's \<open>int(x)\<close> on a float.\<close>

fun py_int :: "pyfloat \<Rightarrow> py_error + int" where
  "py_int (Finite q) = Inr (trunc_toward_zero q)"
| "py_int NaN = Inl ValueError"
| "py_int PosInf = Inl OverflowError"
| "py_int NegInf = Inl OverflowError"

text \<open>A Python number passed where the library expects a C double.\<close>

fun to_double :: "pyval \<Rightarrow> pyfloat" where
  "to_double (PyInt i) = Finite (of_int i)"
| "to_double (PyFloat x) = x"

type_synonym pydict = "string \<rightharpoonup> pyval"

text \<open>\<open>d[k]\<close>: a missing key raises \<open>KeyError\<close>.\<close>

definition getitem :: "pydict \<Rightarrow> string \<Rightarrow> py_error + pyval" where
  "getitem d k = (case d k of None \<Rightarrow> Inl KeyError | Some v \<Rightarrow> Inr v)"

section \<open>Frames\<close>

text \<open>
  A decoded frame is a grid of 8-bit pixels in B, G, R channel order (rows of pixels).
  An image handed to the writer has one channel or three.
\<close>

type_synonym pixel = "8 word \<times> 8 word \<times> 8 word"
type_synonym color_frame = "pixel list list"
type_synonym gray_frame = "8 word list list"

datatype image = Gray gray_frame | Color color_frame

section \<open>The video library\<close>

text \<open>
  Modelled from the spec: the code calls an external library (\<open>cv2\<close>) for decoding,
  encoding and the pixel transforms; none of it is part of the repository, so the capture
  and the writer below follow the spec's data model. The input stream is an ordered,
  finite, forward-only sequence of frames with metadata fixed for its lifetime: a file
  system maps a path to a container, that is its metadata and the results of its
  successive frame reads, \<open>Some f\<close> for a decoded frame and \<open>None\<close> for a frame that fails
  to decode. The output sink is the record of what the code handed to the writer: the
  arguments of its constructor and the sequence of frames passed to \<open>write\<close>. The encoder
  behind the writer is outside the model.
\<close>

record video =
  v_fourcc :: pyfloat
  v_fps :: pyfloat
  v_height :: pyfloat
  v_width :: pyfloat
  v_framecount :: pyfloat
  v_frames :: "color_frame option list"

type_synonym filesystem = "string \<rightharpoonup> video"

datatype cap_prop =
  CAP_PROP_FOURCC | CAP_PROP_FPS | CAP_PROP_FRAME_HEIGHT | CAP_PROP_FRAME_WIDTH
  | CAP_PROP_FRAME_COUNT

record capture =
  container :: "video option"
  pending :: "color_frame option list"
  cap_released :: bool

text \<open>
  Modelled from the spec: \<open>cv2.VideoCapture(path)\<close> does not raise. When the file cannot be
  opened the capture is simply not opened: \<open>capture.get\<close> reads every property as 0 (the
  zeroed metadata of the spec) and every read fails.
\<close>

definition VideoCapture :: "filesystem \<Rightarrow> string \<Rightarrow> capture" where
  "VideoCapture fs path =
     (case fs path of
        None \<Rightarrow> \<lparr>container = None, pending = [], cap_released = False\<rparr>
      | Some v \<Rightarrow> \<lparr>container = Some v, pending = v_frames v, cap_released = False\<rparr>)"

fun video_prop :: "video \<Rightarrow> cap_prop \<Rightarrow> pyfloat" where
  "video_prop v CAP_PROP_FOURCC = v_fourcc v"
| "video_prop v CAP_PROP_FPS = v_fps v"
| "video_prop v CAP_PROP_FRAME_HEIGHT = v_height v"
| "video_prop v CAP_PROP_FRAME_WIDTH = v_width v"
| "video_prop v CAP_PROP_FRAME_COUNT = v_framecount v"

definition capture_get :: "capture \<Rightarrow> cap_prop \<Rightarrow> pyfloat" where
  "capture_get c p = (case container c of None \<Rightarrow> Finite 0 | Some v \<Rightarrow> video_prop v p)"

text \<open>
  Modelled from the spec: \<open>success, image = capture.read()\<close>. The pair is an option,
  \<open>Some image\<close> for \<open>(True, image)\<close> and \<open>None\<close> for \<open>(False, None)\<close>. A read consumes one
  entry of the stream; at the end of the stream it fails and consumes nothing.
  \<open>capture.release()\<close> marks the capture released.
\<close>

fun capture_read :: "capture \<Rightarrow> color_frame option \<times> capture" where
  "capture_read c =
     (case pending c of
        [] \<Rightarrow> (None, c)
      | r # rest \<Rightarrow> (r, c\<lparr>pending := rest\<rparr>))"

definition capture_release :: "capture \<Rightarrow> capture" where
  "capture_release c = c\<lparr>cap_released := True\<rparr>"

record writer =
  w_path :: string
  w_fourcc :: int
  w_fps :: pyfloat
  w_size :: "int \<times> int"
  w_isColor :: bool
  written :: "image list"
  w_released :: bool

text \<open>
  Modelled from the spec: \<open>cv2.VideoWriter(path, fourcc, fps, (width, height), isColor)\<close>.
  The codec tag and the sizes must be Python ints, the frame rate any Python number;
  \<open>write\<close> appends a frame to the sink and \<open>release\<close> marks it released. The ranges of
  the C types these arguments are converted to are not modelled.
\<close>

fun VideoWriter ::
  "string \<Rightarrow> pyval \<Rightarrow> pyval \<Rightarrow> pyval \<times> pyval \<Rightarrow> bool \<Rightarrow> py_error + writer" where
  "VideoWriter path (PyInt fourcc) fps (PyInt width, PyInt height) isColor =
     Inr \<lparr>w_path = path, w_fourcc = fourcc, w_fps = to_double fps,
          w_size = (width, height), w_isColor = isColor, written = [],
          w_released = False\<rparr>"
| "VideoWriter path fourcc fps frameSize isColor = Inl TypeError"

definition writer_write :: "writer \<Rightarrow> image \<Rightarrow> writer" where
  "writer_write w img = w\<lparr>written := written w @ [img]\<rparr>"

definition writer_release :: "writer \<Rightarrow> writer" where
  "writer_release w = w\<lparr>w_released := True\<rparr>"

section \<open>The pixel primitives of the library\<close>

text \<open>
  Modelled from the spec: \<open>cv2.cvtColor\<close> is a primitive of the external library and is not
  part of the repository. The spec describes it as the standard weighted luminance formula
  \<open>Y = 0.299 R + 0.587 G + 0.114 B\<close>; on 8-bit pixels the library evaluates it in 15-bit
  fixed point, rounding to nearest.
\<close>

definition bgr2gray_pixel :: "pixel \<Rightarrow> 8 word" where
  "bgr2gray_pixel p =
     (case p of (b, g, r) \<Rightarrow>
        word_of_nat ((3735 * unat b + 19235 * unat g + 9798 * unat r + 16384) div 32768))"

definition cvtColor_BGR2GRAY :: "color_frame \<Rightarrow> gray_frame" where
  "cvtColor_BGR2GRAY src = map (map bgr2gray_pixel) src"

text \<open>
  Modelled from the spec: \<open>cv2.cvtColor(..., COLOR_GRAY2RGB)\<close> replicates the single channel
  into three channels, the same value in each.
\<close>

definition cvtColor_GRAY2RGB :: "gray_frame \<Rightarrow> color_frame" where
  "cvtColor_GRAY2RGB src = map (map (\<lambda>v. (v, v, v))) src"

text \<open>
  Modelled from the spec: Otsu's method is a primitive of the external library. It chooses
  the threshold that minimises the intra-class luminance variance over the frame's
  histogram: for a threshold \<open>t\<close> the two classes are the pixels \<open>\<le> t\<close> and the pixels
  \<open>> t\<close>, the cost is the sum of their squared deviations from their class means, and the
  first threshold of least cost is taken. The model computes in exact arithmetic.
\<close>

definition class_scatter :: "nat list \<Rightarrow> rat" where
  "class_scatter xs =
     (if xs = [] then 0
      else (\<Sum>x\<leftarrow>xs. (of_nat x)\<^sup>2) - (\<Sum>x\<leftarrow>xs. of_nat x)\<^sup>2 / of_nat (length xs))"

definition otsu_cost :: "nat list \<Rightarrow> nat \<Rightarrow> rat" where
  "otsu_cost px t = class_scatter (filter (\<lambda>x. x \<le> t) px) + class_scatter (filter (\<lambda>x. t < x) px)"

definition otsu :: "gray_frame \<Rightarrow> nat" where
  "otsu src =
     (let px = map unat (concat src)
      in fold (\<lambda>t best. if otsu_cost px t < otsu_cost px best then t else best) [1..<256] 0)"

text \<open>
  Modelled from the spec: \<open>cv2.threshold(src, thresh, maxval, THRESH_BINARY + THRESH_OTSU)\<close>
  ignores \<open>thresh\<close>, computes Otsu's threshold of \<open>src\<close> and returns it together with the
  mask that is \<open>maxval\<close> where the pixel is above the threshold and 0 elsewhere.
\<close>

definition threshold_BINARY_OTSU :: "gray_frame \<Rightarrow> nat \<Rightarrow> 8 word \<Rightarrow> nat \<times> gray_frame" where
  "threshold_BINARY_OTSU src thresh maxval =
     (let t = otsu src
      in (t, map (map (\<lambda>x. if t < unat x then maxval else 0)) src))"

text \<open>
  Modelled from the spec: \<open>cv2.Sobel(src, ddepth, dx, dy, ksize)\<close> is a primitive of the
  external library. Its kernel of size \<open>ksize\<close> for a derivative of order \<open>d\<close> is the
  product of \<open>d\<close> difference factors \<open>[-1, 1]\<close> and \<open>ksize - 1 - d\<close> smoothing factors
  \<open>[1, 1]\<close>; the image is correlated with the horizontal kernel of order \<open>dx\<close> and the
  vertical kernel of order \<open>dy\<close>, pixels outside the image being mirrored at the border
  without repeating the border pixel. With \<open>ddepth = -1\<close> the result has the depth of
  the source, here 8 bits, and every sum is saturated to \<open>0..255\<close>.
\<close>

definition times_linear :: "int \<Rightarrow> int \<Rightarrow> int list \<Rightarrow> int list" where
  "times_linear a b ks = map2 (+) (map ((*) a) ks @ [0]) (0 # map ((*) b) ks)"

definition getDerivKernel :: "nat \<Rightarrow> nat \<Rightarrow> int list" where
  "getDerivKernel ksize d =
     ((times_linear (- 1) 1) ^^ d) (((times_linear 1 1) ^^ (ksize - 1 - d)) [1])"

definition reflect_101 :: "int \<Rightarrow> nat \<Rightarrow> nat" where
  "reflect_101 p len =
     (if len \<le> 1 then 0
      else let period = 2 * (int len - 1); m = p mod period
           in nat (if m < int len then m else period - m))"

text \<open>
  The pixel at row \<open>y\<close> and column \<open>x\<close> after mirroring. The guard only matters for a grid
  whose rows differ in length, which is not an image.
\<close>

definition border_pixel :: "gray_frame \<Rightarrow> int \<Rightarrow> int \<Rightarrow> int" where
  "border_pixel src y x =
     (let y' = reflect_101 y (length src)
      in if y' < length src
         then (let x' = reflect_101 x (length (src ! y'))
               in if x' < length (src ! y') then uint (src ! y' ! x') else 0)
         else 0)"

definition saturate_u8 :: "int \<Rightarrow> 8 word" where
  "saturate_u8 v = word_of_int (max 0 (min 255 v))"

definition sobel_sum :: "gray_frame \<Rightarrow> nat \<Rightarrow> nat \<Rightarrow> nat \<Rightarrow> nat \<Rightarrow> nat \<Rightarrow> int" where
  "sobel_sum src dx dy ksize i j =
     (let kx = getDerivKernel ksize dx; ky = getDerivKernel ksize dy; r = int (ksize div 2)
      in (\<Sum>a\<leftarrow>[0..<ksize]. \<Sum>b\<leftarrow>[0..<ksize].
            ky ! a * kx ! b * border_pixel src (int i + int a - r) (int j + int b - r)))"

text \<open>\<open>Sobel_same_depth src dx dy ksize\<close> is \<open>cv2.Sobel(src, ddepth=-1, dx, dy, ksize)\<close>.\<close>

definition Sobel_same_depth :: "gray_frame \<Rightarrow> nat \<Rightarrow> nat \<Rightarrow> nat \<Rightarrow> gray_frame" where
  "Sobel_same_depth src dx dy ksize =
     map (\<lambda>i. map (\<lambda>j. saturate_u8 (sobel_sum src dx dy ksize i j)) [0..<length (src ! i)])
       [0..<length src]"

section \<open>The program\<close>

definition ID1 :: string where "ID1 = ''203135058''"
definition ID2 :: string where "ID2 = ''203764170''"

definition INPUT_VIDEO :: string where
  "INPUT_VIDEO = ''atrium.avi''"
definition GRAYSCALE_VIDEO :: string where
  "GRAYSCALE_VIDEO = ID1 @ ''_'' @ ID2 @ ''_atrium_grayscale.avi''"
definition BLACK_AND_WHITE_VIDEO :: string where
  "BLACK_AND_WHITE_VIDEO = ID1 @ ''_'' @ ID2 @ ''_atrium_black_and_white.avi''"
definition SOBEL_VIDEO :: string where
  "SOBEL_VIDEO = ID1 @ ''_'' @ ID2 @ ''_atrium_sobel.avi''"

text \<open>Lines 22 to 27: four \<open>int(capture.get(...))\<close> in this order, then the dictionary.\<close>

definition get_video_parameters :: "capture \<Rightarrow> py_error + pydict" where
  "get_video_parameters capture =
     bind_err (py_int (capture_get capture CAP_PROP_FOURCC)) (\<lambda>fourcc.
     bind_err (py_int (capture_get capture CAP_PROP_FPS)) (\<lambda>fps.
     bind_err (py_int (capture_get capture CAP_PROP_FRAME_HEIGHT)) (\<lambda>height.
     bind_err (py_int (capture_get capture CAP_PROP_FRAME_WIDTH)) (\<lambda>width.
       Inr [''fourcc'' \<mapsto> PyInt fourcc, ''fps'' \<mapsto> PyInt fps,
            ''height'' \<mapsto> PyInt height, ''width'' \<mapsto> PyInt width]))))"

text \<open>
  Line 58: the writer of the grayscale pipeline, its last argument \<open>0\<close> being
  \<open>isColor\<close>.
\<close>

definition grayscale_new_video :: "string \<Rightarrow> pydict \<Rightarrow> py_error + writer" where
  "grayscale_new_video output_video_path capture_info =
     bind_err (getitem capture_info ''fourcc'') (\<lambda>fourcc.
     bind_err (getitem capture_info ''fps'') (\<lambda>fps.
     bind_err (getitem capture_info ''width'') (\<lambda>width.
     bind_err (getitem capture_info ''height'') (\<lambda>height.
       VideoWriter output_video_path fourcc fps (width, height) False))))"

text \<open>
  Lines 101 to 105 and, word for word, lines 153 to 157: the dictionary of the
  black-and-white and sobel pipelines. Only the width, the height and the codec go through
  \<open>int\<close>.
\<close>

definition probe_capture_info :: "capture \<Rightarrow> py_error + pydict" where
  "probe_capture_info capture =
     (let framecount = capture_get capture CAP_PROP_FRAME_COUNT;
          fps = capture_get capture CAP_PROP_FPS
      in bind_err (py_int (capture_get capture CAP_PROP_FRAME_WIDTH)) (\<lambda>width.
         bind_err (py_int (capture_get capture CAP_PROP_FRAME_HEIGHT)) (\<lambda>height.
         bind_err (py_int (capture_get capture CAP_PROP_FOURCC)) (\<lambda>codec.
           Inr [''framecount'' \<mapsto> PyFloat framecount, ''fps'' \<mapsto> PyFloat fps,
                ''width'' \<mapsto> PyInt width, ''height'' \<mapsto> PyInt height,
                ''codec'' \<mapsto> PyInt codec]))))"

text \<open>Lines 108 and 160: the writer of those two pipelines; \<open>isColor\<close> defaults to true.\<close>

definition color_new_video :: "string \<Rightarrow> pydict \<Rightarrow> py_error + writer" where
  "color_new_video output_video_path capture_info =
     bind_err (getitem capture_info ''codec'') (\<lambda>codec.
     bind_err (getitem capture_info ''fps'') (\<lambda>fps.
     bind_err (getitem capture_info ''width'') (\<lambda>width.
     bind_err (getitem capture_info ''height'') (\<lambda>height.
       VideoWriter output_video_path codec fps (width, height) True))))"

text \<open>The three loop bodies: lines 64, 114 to 116 and 166 to 168 (\<open>img\<close> is the source's
  \<open>image\<close>).\<close>

definition grayscale_body :: "color_frame \<Rightarrow> image" where
  "grayscale_body img = (let grayscale_image = cvtColor_BGR2GRAY img in Gray grayscale_image)"

definition black_and_white_body :: "color_frame \<Rightarrow> image" where
  "black_and_white_body img =
     (let grayscale_image = cvtColor_BGR2GRAY img;
          bw_image = snd (threshold_BINARY_OTSU grayscale_image 0 255);
          new_rgb_frame = cvtColor_GRAY2RGB bw_image
      in Color new_rgb_frame)"

definition sobel_body :: "color_frame \<Rightarrow> image" where
  "sobel_body img =
     (let grayscale_image = cvtColor_BGR2GRAY img;
          sobel_image = Sobel_same_depth grayscale_image 1 1 5;
          new_rgb_frame = cvtColor_GRAY2RGB sobel_image
      in Color new_rgb_frame)"

text \<open>
  The \<open>while success\<close> loop, the same in the three pipelines but for its body: the frame
  just read is transformed and written, the next one is read, the counter goes up.
\<close>

function frame_loop ::
  "(color_frame \<Rightarrow> image) \<Rightarrow> color_frame option \<Rightarrow> capture \<Rightarrow> writer \<Rightarrow> nat
     \<Rightarrow> capture \<times> writer \<times> nat" where
  "frame_loop body None capture new_video count = (capture, new_video, count)"
| "frame_loop body (Some img) capture new_video count =
     frame_loop body (fst (capture_read capture)) (snd (capture_read capture))
       (writer_write new_video (body img)) (count + 1)"
  by pat_completeness auto
termination
  by (relation "measure (\<lambda>(body, r, capture, new_video, count).
         length (pending capture) + (case r of None \<Rightarrow> 0 | Some _ \<Rightarrow> 1))")
     (auto split: list.splits option.splits)

text \<open>
  What a pipeline leaves behind: the exception it raised, if any, the capture and the
  writer (none when the exception came before the writer was made).
\<close>

record run =
  raised :: "py_error option"
  run_capture :: capture
  run_writer :: "writer option"

text \<open>
  Lines 61 to 72, 111 to 124 and 163 to 176: the first read, the loop, then the release of
  the capture and of the writer. \<open>cv2.destroyAllWindows()\<close> touches neither and is left
  out.
\<close>

definition convert_loop ::
  "(color_frame \<Rightarrow> image) \<Rightarrow> capture \<Rightarrow> writer \<Rightarrow> run" where
  "convert_loop body capture new_video =
     (case frame_loop body (fst (capture_read capture)) (snd (capture_read capture))
             new_video 0 of
        (capture', new_video', count) \<Rightarrow>
          \<lparr>raised = None, run_capture = capture_release capture',
           run_writer = Some (writer_release new_video')\<rparr>)"

definition convert_video_to_grayscale :: "filesystem \<Rightarrow> string \<Rightarrow> string \<Rightarrow> run" where
  "convert_video_to_grayscale fs input_video_path output_video_path =
     (let capture = VideoCapture fs input_video_path
      in case get_video_parameters capture of
           Inl e \<Rightarrow> \<lparr>raised = Some e, run_capture = capture, run_writer = None\<rparr>
         | Inr capture_info \<Rightarrow>
             (case grayscale_new_video output_video_path capture_info of
                Inl e \<Rightarrow> \<lparr>raised = Some e, run_capture = capture, run_writer = None\<rparr>
              | Inr new_video \<Rightarrow> convert_loop grayscale_body capture new_video))"

definition convert_video_to_black_and_white :: "filesystem \<Rightarrow> string \<Rightarrow> string \<Rightarrow> run" where
  "convert_video_to_black_and_white fs input_video_path output_video_path =
     (let capture = VideoCapture fs input_video_path
      in case probe_capture_info capture of
           Inl e \<Rightarrow> \<lparr>raised = Some e, run_capture = capture, run_writer = None\<rparr>
         | Inr capture_info \<Rightarrow>
             (case color_new_video output_video_path capture_info of
                Inl e \<Rightarrow> \<lparr>raised = Some e, run_capture = capture, run_writer = None\<rparr>
              | Inr new_video \<Rightarrow> convert_loop black_and_white_body capture new_video))"

definition convert_video_to_sobel :: "filesystem \<Rightarrow> string \<Rightarrow> string \<Rightarrow> run" where
  "convert_video_to_sobel fs input_video_path output_video_path =
     (let capture = VideoCapture fs input_video_path
      in case probe_capture_info capture of
           Inl e \<Rightarrow> \<lparr>raised = Some e, run_capture = capture, run_writer = None\<rparr>
         | Inr capture_info \<Rightarrow>
             (case color_new_video output_video_path capture_info of
                Inl e \<Rightarrow> \<lparr>raised = Some e, run_capture = capture, run_writer = None\<rparr>
              | Inr new_video \<Rightarrow> convert_loop sobel_body capture new_video))"




section \<open>Vocabulary of the properties\<close>

text \<open>
  The frames a loop gets out of a stream of read results: those before the first failed
  read. \<open>rest_after\<close> is what the loop leaves unread.
\<close>

fun decoded_prefix :: "'a option list \<Rightarrow> 'a list" where
  "decoded_prefix [] = []"
| "decoded_prefix (None # rs) = []"
| "decoded_prefix (Some x # rs) = x # decoded_prefix rs"

fun rest_after :: "'a option list \<Rightarrow> 'a option list" where
  "rest_after [] = []"
| "rest_after (None # rs) = rs"
| "rest_after (Some x # rs) = rest_after rs"

fun is_finite :: "pyfloat \<Rightarrow> bool" where
  "is_finite (Finite q) = True"
| "is_finite NaN = False"
| "is_finite PosInf = False"
| "is_finite NegInf = False"

definition metadata_finite :: "video \<Rightarrow> bool" where
  "metadata_finite v \<longleftrightarrow>
     is_finite (v_fourcc v) \<and> is_finite (v_fps v) \<and> is_finite (v_height v)
     \<and> is_finite (v_width v)"

text \<open>
  The black-and-white and sobel pipelines put only the codec tag, the height and the width
  through \<open>int\<close>.
\<close>

definition probe_finite :: "video \<Rightarrow> bool" where
  "probe_finite v \<longleftrightarrow>
     is_finite (v_fourcc v) \<and> is_finite (v_height v) \<and> is_finite (v_width v)"

text \<open>The frames a run handed to its writer, none when it made no writer.\<close>

definition written_frames :: "run \<Rightarrow> image list" where
  "written_frames r = (case run_writer r of None \<Rightarrow> [] | Some w \<Rightarrow> written w)"

text \<open>What can be seen of a run from outside: the exception, the writer, the releases.\<close>

definition observable :: "run \<Rightarrow> py_error option \<times> writer option \<times> bool" where
  "observable r = (raised r, run_writer r, cap_released (run_capture r))"

definition both_released :: "run \<Rightarrow> bool" where
  "both_released r \<longleftrightarrow>
     cap_released (run_capture r)
     \<and> (case run_writer r of None \<Rightarrow> False | Some w \<Rightarrow> w_released w)"

text \<open>A three-channel image all of whose pixels have three equal channels.\<close>

fun monochrome_rgb :: "image \<Rightarrow> bool" where
  "monochrome_rgb (Color f) = list_all (list_all (\<lambda>(b, g, r). b = g \<and> g = r)) f"
| "monochrome_rgb (Gray f) = False"

text \<open>The set of the channel values that occur in an image.\<close>

fun pixel_values :: "image \<Rightarrow> 8 word set" where
  "pixel_values (Color f) = (\<Union>(b, g, r) \<in> set (concat f). {b, g, r})"
| "pixel_values (Gray f) = set (concat f)"

text \<open>The luminances that occur in a frame.\<close>

definition luminances :: "color_frame \<Rightarrow> 8 word set" where
  "luminances f = set (concat (cvtColor_BGR2GRAY f))"

subsection \<open>Sample inputs\<close>

definition sample_frame :: color_frame where
  "sample_frame = [[(10, 20, 30), (200, 210, 220)], [(0, 0, 0), (255, 255, 255)]]"

definition black_frame :: color_frame where
  "black_frame = [[(0, 0, 0), (0, 0, 0)], [(0, 0, 0), (0, 0, 0)]]"

definition sample_video :: video where
  "sample_video =
     \<lparr>v_fourcc = Finite 1145656920, v_fps = Finite 30, v_height = Finite 2,
      v_width = Finite 2, v_framecount = Finite 2,
      v_frames = [Some sample_frame, Some black_frame]\<rparr>"

text \<open>A frame rate of 30000/1001 (29.97 frames a second) and one of 24000/1001.\<close>

definition ntsc_video :: video where
  "ntsc_video = sample_video\<lparr>v_fps := Finite (30000 / 1001)\<rparr>"

definition film_video :: video where
  "film_video = sample_video\<lparr>v_fps := Finite (24000 / 1001)\<rparr>"

text \<open>A container whose frame rate reads as infinite, and one whose frame rate is NaN.\<close>

definition broken_timebase_video :: video where
  "broken_timebase_video = sample_video\<lparr>v_fps := PosInf\<rparr>"

definition nan_video :: video where
  "nan_video = sample_video\<lparr>v_fps := NaN\<rparr>"

text \<open>A stream whose second frame fails to decode.\<close>

definition damaged_video :: video where
  "damaged_video = sample_video\<lparr>v_frames := [Some sample_frame, None, Some black_frame]\<rparr>"

text \<open>
  A frame with a vertical edge of full contrast, a frame with a staircase edge along the
  diagonal, and a video of the two.
\<close>

definition edge_frame :: color_frame where
  "edge_frame =
     replicate 5 [(0, 0, 0), (0, 0, 0), (255, 255, 255), (255, 255, 255), (255, 255, 255)]"

definition stair_frame :: color_frame where
  "stair_frame =
     [[(0, 0, 0), (100, 100, 100), (100, 100, 100), (100, 100, 100), (100, 100, 100)],
      [(0, 0, 0), (0, 0, 0), (100, 100, 100), (100, 100, 100), (100, 100, 100)],
      [(0, 0, 0), (0, 0, 0), (0, 0, 0), (100, 100, 100), (100, 100, 100)],
      [(0, 0, 0), (0, 0, 0), (0, 0, 0), (0, 0, 0), (100, 100, 100)],
      [(0, 0, 0), (0, 0, 0), (0, 0, 0), (0, 0, 0), (0, 0, 0)]]"

definition shapes_video :: video where
  "shapes_video =
     \<lparr>v_fourcc = Finite 1145656920, v_fps = Finite 30, v_height = Finite 5,
      v_width = Finite 5, v_framecount = Finite 2,
      v_frames = [Some edge_frame, Some stair_frame]\<rparr>"

text \<open>The frames a pipeline reads from the input at a path.\<close>

definition frames_read :: "filesystem \<Rightarrow> string \<Rightarrow> color_frame list" where
  "frames_read fs path = decoded_prefix (pending (VideoCapture fs path))"

section \<open>The loop\<close>

lemma frame_loop_eq:
  "frame_loop body r c w n =
     (c\<lparr>pending := rest_after (r # pending c)\<rparr>,
      w\<lparr>written := written w @ map body (decoded_prefix (r # pending c))\<rparr>,
      n + length (decoded_prefix (r # pending c)))"
proof (induction body r c w n rule: frame_loop.induct)
  case (1 body capture new_video count)
  show ?case by simp
next
  case (2 body img capture new_video count)
  show ?case
  proof (cases "pending capture")
    case Nil
    then show ?thesis by (simp add: writer_write_def)
  next
    case (Cons x xs)
    with 2 show ?thesis by (simp add: writer_write_def)
  qed
qed

lemma convert_loop_eq:
  "convert_loop body c w =
     \<lparr>raised = None,
      run_capture = c\<lparr>pending := rest_after (pending c), cap_released := True\<rparr>,
      run_writer = Some (w\<lparr>written := written w @ map body (decoded_prefix (pending c)),
                           w_released := True\<rparr>)\<rparr>"
  by (cases "pending c")
     (simp_all add: convert_loop_def frame_loop_eq capture_release_def writer_release_def)

lemma decoded_prefix_map_Some [simp]: "decoded_prefix (map Some xs) = xs"
  by (induction xs) simp_all

lemma decoded_prefix_failure [simp]: "decoded_prefix (map Some xs @ None # rs) = xs"
  by (induction xs) simp_all

lemma decoded_prefix_all_decoded:
  "list_all (\<lambda>r. r \<noteq> None) rs \<Longrightarrow> length (decoded_prefix rs) = length rs"
proof (induction rs)
  case Nil
  show ?case by simp
next
  case (Cons r rs)
  then show ?case by (cases r) simp_all
qed

section \<open>The probes\<close>

lemma is_finite_iff: "is_finite x \<longleftrightarrow> (\<exists>q. x = Finite q)"
  by (cases x) simp_all

lemma py_int_Inr_iff: "(\<exists>n. py_int x = Inr n) \<longleftrightarrow> is_finite x"
  by (cases x) simp_all

lemma VideoCapture_Some:
  "fs p = Some v \<Longrightarrow>
   VideoCapture fs p = \<lparr>container = Some v, pending = v_frames v, cap_released = False\<rparr>"
  by (simp add: VideoCapture_def)


lemma VideoCapture_not_released [simp]: "\<not> cap_released (VideoCapture fs p)"
  by (simp add: VideoCapture_def split: option.splits)

lemma get_video_parameters_finite:
  assumes "capture_get c CAP_PROP_FOURCC = Finite a"
    and "capture_get c CAP_PROP_FPS = Finite b"
    and "capture_get c CAP_PROP_FRAME_HEIGHT = Finite h"
    and "capture_get c CAP_PROP_FRAME_WIDTH = Finite w"
  shows "get_video_parameters c =
     Inr [''fourcc'' \<mapsto> PyInt (trunc_toward_zero a), ''fps'' \<mapsto> PyInt (trunc_toward_zero b),
          ''height'' \<mapsto> PyInt (trunc_toward_zero h), ''width'' \<mapsto> PyInt (trunc_toward_zero w)]"
  using assms by (simp add: get_video_parameters_def bind_err_def)

lemma get_video_parameters_cases:
  "(\<exists>e. get_video_parameters c = Inl e) \<or>
   (\<exists>a b h w. capture_get c CAP_PROP_FOURCC = Finite a \<and> capture_get c CAP_PROP_FPS = Finite b
      \<and> capture_get c CAP_PROP_FRAME_HEIGHT = Finite h
      \<and> capture_get c CAP_PROP_FRAME_WIDTH = Finite w)"
  by (cases "capture_get c CAP_PROP_FOURCC"; cases "capture_get c CAP_PROP_FPS";
      cases "capture_get c CAP_PROP_FRAME_HEIGHT"; cases "capture_get c CAP_PROP_FRAME_WIDTH")
     (simp_all add: get_video_parameters_def bind_err_def)

lemma grayscale_new_video_eq:
  "grayscale_new_video p [''fourcc'' \<mapsto> PyInt a, ''fps'' \<mapsto> PyInt b,
          ''height'' \<mapsto> PyInt h, ''width'' \<mapsto> PyInt w] =
   Inr \<lparr>w_path = p, w_fourcc = a, w_fps = Finite (of_int b),
          w_size = (w, h), w_isColor = False, written = [],
          w_released = False\<rparr>"
  by (simp add: grayscale_new_video_def getitem_def bind_err_def)

lemma probe_capture_info_finite:
  assumes "capture_get c CAP_PROP_FOURCC = Finite a"
    and "capture_get c CAP_PROP_FRAME_HEIGHT = Finite h"
    and "capture_get c CAP_PROP_FRAME_WIDTH = Finite w"
  shows "probe_capture_info c =
     Inr [''framecount'' \<mapsto> PyFloat (capture_get c CAP_PROP_FRAME_COUNT),
          ''fps'' \<mapsto> PyFloat (capture_get c CAP_PROP_FPS),
          ''width'' \<mapsto> PyInt (trunc_toward_zero w), ''height'' \<mapsto> PyInt (trunc_toward_zero h),
          ''codec'' \<mapsto> PyInt (trunc_toward_zero a)]"
  using assms by (simp add: probe_capture_info_def bind_err_def)

lemma probe_capture_info_cases:
  "(\<exists>e. probe_capture_info c = Inl e) \<or>
   (\<exists>a h w. capture_get c CAP_PROP_FOURCC = Finite a
      \<and> capture_get c CAP_PROP_FRAME_HEIGHT = Finite h
      \<and> capture_get c CAP_PROP_FRAME_WIDTH = Finite w)"
  by (cases "capture_get c CAP_PROP_FOURCC";
      cases "capture_get c CAP_PROP_FRAME_HEIGHT"; cases "capture_get c CAP_PROP_FRAME_WIDTH")
     (simp_all add: probe_capture_info_def bind_err_def)

lemma color_new_video_eq:
  "color_new_video p [''framecount'' \<mapsto> PyFloat n, ''fps'' \<mapsto> PyFloat b,
          ''width'' \<mapsto> PyInt w, ''height'' \<mapsto> PyInt h, ''codec'' \<mapsto> PyInt a] =
   Inr \<lparr>w_path = p, w_fourcc = a, w_fps = b,
          w_size = (w, h), w_isColor = True, written = [],
          w_released = False\<rparr>"
  by (simp add: color_new_video_def getitem_def bind_err_def)

section \<open>The three pipelines\<close>

lemma grayscale_run:
  assumes "capture_get (VideoCapture fs ip) CAP_PROP_FOURCC = Finite a"
    and "capture_get (VideoCapture fs ip) CAP_PROP_FPS = Finite b"
    and "capture_get (VideoCapture fs ip) CAP_PROP_FRAME_HEIGHT = Finite h"
    and "capture_get (VideoCapture fs ip) CAP_PROP_FRAME_WIDTH = Finite w"
  shows "convert_video_to_grayscale fs ip op =
     \<lparr>raised = None,
      run_capture = (VideoCapture fs ip)\<lparr>pending := rest_after (pending (VideoCapture fs ip)),
                       cap_released := True\<rparr>,
      run_writer = Some \<lparr>w_path = op, w_fourcc = trunc_toward_zero a,
          w_fps = Finite (of_int (trunc_toward_zero b)),
          w_size = (trunc_toward_zero w, trunc_toward_zero h), w_isColor = False,
          written = map grayscale_body (decoded_prefix (pending (VideoCapture fs ip))),
          w_released = True\<rparr>\<rparr>"
  unfolding convert_video_to_grayscale_def Let_def
  by (simp add: get_video_parameters_finite [OF assms] grayscale_new_video_eq convert_loop_eq)

lemma grayscale_raises:
  assumes "get_video_parameters (VideoCapture fs ip) = Inl e"
  shows "convert_video_to_grayscale fs ip op =
     \<lparr>raised = Some e, run_capture = VideoCapture fs ip, run_writer = None\<rparr>"
  using assms by (simp add: convert_video_to_grayscale_def)

lemma black_and_white_run:
  assumes "capture_get (VideoCapture fs ip) CAP_PROP_FOURCC = Finite a"
    and "capture_get (VideoCapture fs ip) CAP_PROP_FRAME_HEIGHT = Finite h"
    and "capture_get (VideoCapture fs ip) CAP_PROP_FRAME_WIDTH = Finite w"
  shows "convert_video_to_black_and_white fs ip op =
     \<lparr>raised = None,
      run_capture = (VideoCapture fs ip)\<lparr>pending := rest_after (pending (VideoCapture fs ip)),
                       cap_released := True\<rparr>,
      run_writer = Some \<lparr>w_path = op, w_fourcc = trunc_toward_zero a,
          w_fps = capture_get (VideoCapture fs ip) CAP_PROP_FPS,
          w_size = (trunc_toward_zero w, trunc_toward_zero h), w_isColor = True,
          written = map black_and_white_body (decoded_prefix (pending (VideoCapture fs ip))),
          w_released = True\<rparr>\<rparr>"
  unfolding convert_video_to_black_and_white_def Let_def
  by (simp add: probe_capture_info_finite [OF assms] color_new_video_eq convert_loop_eq)

lemma black_and_white_raises:
  assumes "probe_capture_info (VideoCapture fs ip) = Inl e"
  shows "convert_video_to_black_and_white fs ip op =
     \<lparr>raised = Some e, run_capture = VideoCapture fs ip, run_writer = None\<rparr>"
  using assms by (simp add: convert_video_to_black_and_white_def)

lemma sobel_run:
  assumes "capture_get (VideoCapture fs ip) CAP_PROP_FOURCC = Finite a"
    and "capture_get (VideoCapture fs ip) CAP_PROP_FRAME_HEIGHT = Finite h"
    and "capture_get (VideoCapture fs ip) CAP_PROP_FRAME_WIDTH = Finite w"
  shows "convert_video_to_sobel fs ip op =
     \<lparr>raised = None,
      run_capture = (VideoCapture fs ip)\<lparr>pending := rest_after (pending (VideoCapture fs ip)),
                       cap_released := True\<rparr>,
      run_writer = Some \<lparr>w_path = op, w_fourcc = trunc_toward_zero a,
          w_fps = capture_get (VideoCapture fs ip) CAP_PROP_FPS,
          w_size = (trunc_toward_zero w, trunc_toward_zero h), w_isColor = True,
          written = map sobel_body (decoded_prefix (pending (VideoCapture fs ip))),
          w_released = True\<rparr>\<rparr>"
  unfolding convert_video_to_sobel_def Let_def
  by (simp add: probe_capture_info_finite [OF assms] color_new_video_eq convert_loop_eq)

lemma sobel_raises:
  assumes "probe_capture_info (VideoCapture fs ip) = Inl e"
  shows "convert_video_to_sobel fs ip op =
     \<lparr>raised = Some e, run_capture = VideoCapture fs ip, run_writer = None\<rparr>"
  using assms by (simp add: convert_video_to_sobel_def)

text \<open>Whatever the input, a run either raised before the loop or wrote the decoded frames.\<close>

lemma grayscale_written:
  "written_frames (convert_video_to_grayscale fs ip op) =
     (if raised (convert_video_to_grayscale fs ip op) = None
      then map grayscale_body (decoded_prefix (pending (VideoCapture fs ip))) else [])"
  using get_video_parameters_cases [of "VideoCapture fs ip"]
  by (auto simp: written_frames_def grayscale_run grayscale_raises)

lemma black_and_white_written:
  "written_frames (convert_video_to_black_and_white fs ip op) =
     (if raised (convert_video_to_black_and_white fs ip op) = None
      then map black_and_white_body (decoded_prefix (pending (VideoCapture fs ip))) else [])"
  using probe_capture_info_cases [of "VideoCapture fs ip"]
  by (auto simp: written_frames_def black_and_white_run black_and_white_raises)

lemma sobel_written:
  "written_frames (convert_video_to_sobel fs ip op) =
     (if raised (convert_video_to_sobel fs ip op) = None
      then map sobel_body (decoded_prefix (pending (VideoCapture fs ip))) else [])"
  using probe_capture_info_cases [of "VideoCapture fs ip"]
  by (auto simp: written_frames_def sobel_run sobel_raises)

lemma metadata_finiteD:
  assumes "fs ip = Some v" and "metadata_finite v"
  obtains a b h w where "capture_get (VideoCapture fs ip) CAP_PROP_FOURCC = Finite a"
    and "capture_get (VideoCapture fs ip) CAP_PROP_FPS = Finite b"
    and "capture_get (VideoCapture fs ip) CAP_PROP_FRAME_HEIGHT = Finite h"
    and "capture_get (VideoCapture fs ip) CAP_PROP_FRAME_WIDTH = Finite w"
    and "v_fourcc v = Finite a" and "v_fps v = Finite b" and "v_height v = Finite h"
    and "v_width v = Finite w"
  using assms
  by (auto simp: metadata_finite_def is_finite_iff capture_get_def VideoCapture_Some)

section \<open>Runs compared\<close>

lemma capture_get_frames_irrelevant:
  "capture_get (VideoCapture (fs(ip \<mapsto> v\<lparr>v_frames := rs\<rparr>)) ip) p = video_prop v p"
  by (cases p) (simp_all add: capture_get_def VideoCapture_def)

lemma pending_VideoCapture_upd:
  "pending (VideoCapture (fs(ip \<mapsto> v)) ip) = v_frames v"
  by (simp add: VideoCapture_def)

lemma grayscale_observable_cong:
  assumes m: "\<And>p. capture_get (VideoCapture fs1 ip1) p = capture_get (VideoCapture fs2 ip2) p"
    and f: "frames_read fs1 ip1 = frames_read fs2 ip2"
  shows "observable (convert_video_to_grayscale fs1 ip1 op) =
         observable (convert_video_to_grayscale fs2 ip2 op)"
proof -
  have eq: "get_video_parameters (VideoCapture fs1 ip1) = get_video_parameters (VideoCapture fs2 ip2)"
    by (simp add: get_video_parameters_def m)
  from get_video_parameters_cases [of "VideoCapture fs1 ip1"] show ?thesis
  proof (elim disjE exE conjE)
    fix e assume e: "get_video_parameters (VideoCapture fs1 ip1) = Inl e"
    with eq have "get_video_parameters (VideoCapture fs2 ip2) = Inl e" by simp
    with e show ?thesis
      by (simp add: grayscale_raises observable_def)
  next
    fix a b h w
    assume fin: "capture_get (VideoCapture fs1 ip1) CAP_PROP_FOURCC = Finite a"
      "capture_get (VideoCapture fs1 ip1) CAP_PROP_FPS = Finite b"
      "capture_get (VideoCapture fs1 ip1) CAP_PROP_FRAME_HEIGHT = Finite h"
      "capture_get (VideoCapture fs1 ip1) CAP_PROP_FRAME_WIDTH = Finite w"
    then have fin2: "capture_get (VideoCapture fs2 ip2) CAP_PROP_FOURCC = Finite a"
      "capture_get (VideoCapture fs2 ip2) CAP_PROP_FPS = Finite b"
      "capture_get (VideoCapture fs2 ip2) CAP_PROP_FRAME_HEIGHT = Finite h"
      "capture_get (VideoCapture fs2 ip2) CAP_PROP_FRAME_WIDTH = Finite w"
      by (simp_all add: m [symmetric])
    show ?thesis
      using f by (simp add: grayscale_run [OF fin] grayscale_run [OF fin2] observable_def
          frames_read_def)
  qed
qed

lemma probe_capture_info_cong:
  assumes "\<And>p. capture_get c1 p = capture_get c2 p"
  shows "probe_capture_info c1 = probe_capture_info c2"
  by (simp add: probe_capture_info_def assms)

lemma black_and_white_observable_cong:
  assumes m: "\<And>p. capture_get (VideoCapture fs1 ip1) p = capture_get (VideoCapture fs2 ip2) p"
    and f: "frames_read fs1 ip1 = frames_read fs2 ip2"
  shows "observable (convert_video_to_black_and_white fs1 ip1 op) =
         observable (convert_video_to_black_and_white fs2 ip2 op)"
proof -
  have eq: "probe_capture_info (VideoCapture fs1 ip1) = probe_capture_info (VideoCapture fs2 ip2)"
    by (rule probe_capture_info_cong) (rule m)
  from probe_capture_info_cases [of "VideoCapture fs1 ip1"] show ?thesis
  proof (elim disjE exE conjE)
    fix e assume e: "probe_capture_info (VideoCapture fs1 ip1) = Inl e"
    with eq have "probe_capture_info (VideoCapture fs2 ip2) = Inl e" by simp
    with e show ?thesis
      by (simp add: black_and_white_raises observable_def)
  next
    fix a h w
    assume fin: "capture_get (VideoCapture fs1 ip1) CAP_PROP_FOURCC = Finite a"
      "capture_get (VideoCapture fs1 ip1) CAP_PROP_FRAME_HEIGHT = Finite h"
      "capture_get (VideoCapture fs1 ip1) CAP_PROP_FRAME_WIDTH = Finite w"
    then have fin2: "capture_get (VideoCapture fs2 ip2) CAP_PROP_FOURCC = Finite a"
      "capture_get (VideoCapture fs2 ip2) CAP_PROP_FRAME_HEIGHT = Finite h"
      "capture_get (VideoCapture fs2 ip2) CAP_PROP_FRAME_WIDTH = Finite w"
      by (simp_all add: m [symmetric])
    show ?thesis
      using f by (simp add: black_and_white_run [OF fin] black_and_white_run [OF fin2]
          observable_def frames_read_def m)
  qed
qed

lemma sobel_observable_cong:
  assumes m: "\<And>p. capture_get (VideoCapture fs1 ip1) p = capture_get (VideoCapture fs2 ip2) p"
    and f: "frames_read fs1 ip1 = frames_read fs2 ip2"
  shows "observable (convert_video_to_sobel fs1 ip1 op) =
         observable (convert_video_to_sobel fs2 ip2 op)"
proof -
  have eq: "probe_capture_info (VideoCapture fs1 ip1) = probe_capture_info (VideoCapture fs2 ip2)"
    by (rule probe_capture_info_cong) (rule m)
  from probe_capture_info_cases [of "VideoCapture fs1 ip1"] show ?thesis
  proof (elim disjE exE conjE)
    fix e assume e: "probe_capture_info (VideoCapture fs1 ip1) = Inl e"
    with eq have "probe_capture_info (VideoCapture fs2 ip2) = Inl e" by simp
    with e show ?thesis
      by (simp add: sobel_raises observable_def)
  next
    fix a h w
    assume fin: "capture_get (VideoCapture fs1 ip1) CAP_PROP_FOURCC = Finite a"
      "capture_get (VideoCapture fs1 ip1) CAP_PROP_FRAME_HEIGHT = Finite h"
      "capture_get (VideoCapture fs1 ip1) CAP_PROP_FRAME_WIDTH = Finite w"
    then have fin2: "capture_get (VideoCapture fs2 ip2) CAP_PROP_FOURCC = Finite a"
      "capture_get (VideoCapture fs2 ip2) CAP_PROP_FRAME_HEIGHT = Finite h"
      "capture_get (VideoCapture fs2 ip2) CAP_PROP_FRAME_WIDTH = Finite w"
      by (simp_all add: m [symmetric])
    show ?thesis
      using f by (simp add: sobel_run [OF fin] sobel_run [OF fin2] observable_def
          frames_read_def m)
  qed
qed

lemma raised_of_finite_metadata:
  assumes "fs ip = Some v" and "metadata_finite v"
  shows "raised (convert_video_to_grayscale fs ip op) = None"
    and "raised (convert_video_to_black_and_white fs ip op) = None"
    and "raised (convert_video_to_sobel fs ip op) = None"
proof -
  obtain a b h w where fin:
    "capture_get (VideoCapture fs ip) CAP_PROP_FOURCC = Finite a"
    "capture_get (VideoCapture fs ip) CAP_PROP_FPS = Finite b"
    "capture_get (VideoCapture fs ip) CAP_PROP_FRAME_HEIGHT = Finite h"
    "capture_get (VideoCapture fs ip) CAP_PROP_FRAME_WIDTH = Finite w"
    using assms by (rule metadata_finiteD)
  show "raised (convert_video_to_grayscale fs ip op) = None"
    by (simp add: grayscale_run [OF fin])
  show "raised (convert_video_to_black_and_white fs ip op) = None"
    by (simp add: black_and_white_run [OF fin(1,3,4)])
  show "raised (convert_video_to_sobel fs ip op) = None"
    by (simp add: sobel_run [OF fin(1,3,4)])
qed

lemma run_exit_paths:
  "(raised (convert_video_to_grayscale fs ip op) = None
      \<and> both_released (convert_video_to_grayscale fs ip op))
   \<or> (raised (convert_video_to_grayscale fs ip op) \<noteq> None
      \<and> \<not> cap_released (run_capture (convert_video_to_grayscale fs ip op))
      \<and> run_writer (convert_video_to_grayscale fs ip op) = None)"
  "(raised (convert_video_to_black_and_white fs ip op) = None
      \<and> both_released (convert_video_to_black_and_white fs ip op))
   \<or> (raised (convert_video_to_black_and_white fs ip op) \<noteq> None
      \<and> \<not> cap_released (run_capture (convert_video_to_black_and_white fs ip op))
      \<and> run_writer (convert_video_to_black_and_white fs ip op) = None)"
  "(raised (convert_video_to_sobel fs ip op) = None
      \<and> both_released (convert_video_to_sobel fs ip op))
   \<or> (raised (convert_video_to_sobel fs ip op) \<noteq> None
      \<and> \<not> cap_released (run_capture (convert_video_to_sobel fs ip op))
      \<and> run_writer (convert_video_to_sobel fs ip op) = None)"
proof -
  show "(raised (convert_video_to_grayscale fs ip op) = None
      \<and> both_released (convert_video_to_grayscale fs ip op))
   \<or> (raised (convert_video_to_grayscale fs ip op) \<noteq> None
      \<and> \<not> cap_released (run_capture (convert_video_to_grayscale fs ip op))
      \<and> run_writer (convert_video_to_grayscale fs ip op) = None)"
    using get_video_parameters_cases [of "VideoCapture fs ip"]
    by (auto simp: grayscale_run grayscale_raises both_released_def)
  show "(raised (convert_video_to_black_and_white fs ip op) = None
      \<and> both_released (convert_video_to_black_and_white fs ip op))
   \<or> (raised (convert_video_to_black_and_white fs ip op) \<noteq> None
      \<and> \<not> cap_released (run_capture (convert_video_to_black_and_white fs ip op))
      \<and> run_writer (convert_video_to_black_and_white fs ip op) = None)"
    using probe_capture_info_cases [of "VideoCapture fs ip"]
    by (auto simp: black_and_white_run black_and_white_raises both_released_def)
  show "(raised (convert_video_to_sobel fs ip op) = None
      \<and> both_released (convert_video_to_sobel fs ip op))
   \<or> (raised (convert_video_to_sobel fs ip op) \<noteq> None
      \<and> \<not> cap_released (run_capture (convert_video_to_sobel fs ip op))
      \<and> run_writer (convert_video_to_sobel fs ip op) = None)"
    using probe_capture_info_cases [of "VideoCapture fs ip"]
    by (auto simp: sobel_run sobel_raises both_released_def)
qed

lemma capture_get_unopened:
  "fs p = None \<Longrightarrow> capture_get (VideoCapture fs p) q = Finite 0"
  by (simp add: capture_get_def VideoCapture_def)

lemma trunc_toward_zero_0 [simp]: "trunc_toward_zero 0 = 0"
  by (simp add: trunc_toward_zero_def)

lemma trunc_toward_zero_of_int [simp]: "trunc_toward_zero (of_int n) = n"
  by (simp add: trunc_toward_zero_def)

lemma trunc_toward_zero_bounds:
  "\<bar>of_int (trunc_toward_zero q)\<bar> \<le> \<bar>q\<bar> \<and> \<bar>q - of_int (trunc_toward_zero q)\<bar> < 1"
  unfolding trunc_toward_zero_def by (auto; linarith)



lemma trunc_ntsc: "trunc_toward_zero (30000 / 1001) = 29"
  by code_simp

lemma trunc_film: "trunc_toward_zero (24000 / 1001) = 23"
  by code_simp

lemma sample_video_props:
  "capture_get (VideoCapture [INPUT_VIDEO \<mapsto> sample_video\<lparr>v_fps := x\<rparr>] INPUT_VIDEO)
     CAP_PROP_FOURCC = Finite 1145656920"
  "capture_get (VideoCapture [INPUT_VIDEO \<mapsto> sample_video\<lparr>v_fps := x\<rparr>] INPUT_VIDEO)
     CAP_PROP_FPS = x"
  "capture_get (VideoCapture [INPUT_VIDEO \<mapsto> sample_video\<lparr>v_fps := x\<rparr>] INPUT_VIDEO)
     CAP_PROP_FRAME_HEIGHT = Finite 2"
  "capture_get (VideoCapture [INPUT_VIDEO \<mapsto> sample_video\<lparr>v_fps := x\<rparr>] INPUT_VIDEO)
     CAP_PROP_FRAME_WIDTH = Finite 2"
  by (simp_all add: capture_get_def VideoCapture_def sample_video_def)

lemma get_video_parameters_raises_iff:
  "(\<exists>e. get_video_parameters c = Inl e) \<longleftrightarrow>
   \<not> (is_finite (capture_get c CAP_PROP_FOURCC) \<and> is_finite (capture_get c CAP_PROP_FPS)
      \<and> is_finite (capture_get c CAP_PROP_FRAME_HEIGHT)
      \<and> is_finite (capture_get c CAP_PROP_FRAME_WIDTH))"
  by (cases "capture_get c CAP_PROP_FOURCC"; cases "capture_get c CAP_PROP_FPS";
      cases "capture_get c CAP_PROP_FRAME_HEIGHT"; cases "capture_get c CAP_PROP_FRAME_WIDTH")
     (simp_all add: get_video_parameters_def bind_err_def)

section \<open>The pixel transforms\<close>

lemma unat_u8_le: "unat (x :: 8 word) \<le> 255"
  using unsigned_less [of x, where ?'a = nat] by simp

lemma unat_bgr2gray_pixel:
  "unat (bgr2gray_pixel (b, g, r)) =
     (3735 * unat b + 19235 * unat g + 9798 * unat r + 16384) div 32768"
proof -
  let ?n = "(3735 * unat b + 19235 * unat g + 9798 * unat r + 16384) div 32768"
  have "?n < 256"
    using unat_u8_le [of b] unat_u8_le [of g] unat_u8_le [of r] by simp
  then have "unat (word_of_nat ?n :: 8 word) = ?n"
    by (simp add: unat_of_nat)
  then show ?thesis
    by (simp add: bgr2gray_pixel_def)
qed

text \<open>
  The single channel of a grayscale pixel is within 0.505 of the weighted combination
  \<open>0.114 B + 0.587 G + 0.299 R\<close> of the channels of the input pixel.
\<close>

lemma grayscale_luminance_within_tolerance:
  "\<bar>1000 * int (unat (bgr2gray_pixel (b, g, r)))
      - (114 * int (unat b) + 587 * int (unat g) + 299 * int (unat r))\<bar> \<le> 505"
proof -
  let ?n = "3735 * unat b + 19235 * unat g + 9798 * unat r + 16384"
  have lo: "32768 * (?n div 32768) \<le> ?n" and hi: "?n < 32768 * (?n div 32768) + 32768"
    by (simp_all add: div_times_less_eq_dividend dividend_less_times_div)
  show ?thesis
    unfolding unat_bgr2gray_pixel
    using lo hi unat_u8_le [of b] unat_u8_le [of g] unat_u8_le [of r] by linarith
qed

lemma monochrome_GRAY2RGB: "monochrome_rgb (Color (cvtColor_GRAY2RGB g))"
  by (simp add: cvtColor_GRAY2RGB_def list_all_iff)

lemma pixel_values_GRAY2RGB: "pixel_values (Color (cvtColor_GRAY2RGB g)) = set (concat g)"
  by (auto simp: cvtColor_GRAY2RGB_def)

lemma threshold_values:
  "set (concat (snd (threshold_BINARY_OTSU src thresh maxval))) \<subseteq> {0, maxval}"
  by (auto simp: threshold_BINARY_OTSU_def Let_def)

lemma black_and_white_body_values:
  "monochrome_rgb (black_and_white_body f) \<and> pixel_values (black_and_white_body f) \<subseteq> {0, 255}"
proof -
  let ?bw = "snd (threshold_BINARY_OTSU (cvtColor_BGR2GRAY f) 0 255)"
  have b: "black_and_white_body f = Color (cvtColor_GRAY2RGB ?bw)"
    by (simp add: black_and_white_body_def Let_def)
  have "pixel_values (Color (cvtColor_GRAY2RGB ?bw)) \<subseteq> {0, 255}"
    unfolding pixel_values_GRAY2RGB by (rule threshold_values)
  then show ?thesis
    unfolding b using monochrome_GRAY2RGB [of ?bw] by blast
qed

section \<open>The sobel transform\<close>

lemma getDerivKernel_5_1: "getDerivKernel 5 1 = [- 1, - 2, 0, 2, 1]"
  by code_simp

lemma upt_5: "[0..<5] = [0, 1, 2, 3, 4]"
  by code_simp

lemma uint_saturate_u8: "uint (saturate_u8 v) = max 0 (min 255 v)"
proof -
  have "0 \<le> max 0 (min 255 v)" and "max 0 (min 255 v) < 2 ^ LENGTH(8)"
    by simp_all
  then show ?thesis
    unfolding saturate_u8_def by (simp only: uint_word_of_int mod_pos_pos_trivial)
qed

lemma Sobel_same_depth_nth:
  assumes "i < length g" and "j < length (g ! i)"
  shows "Sobel_same_depth g dx dy ksize ! i ! j = saturate_u8 (sobel_sum g dx dy ksize i j)"
  using assms by (simp add: Sobel_same_depth_def)

lemma sobel_body_eq:
  "sobel_body f = Color (cvtColor_GRAY2RGB (Sobel_same_depth (cvtColor_BGR2GRAY f) 1 1 5))"
  by (simp add: sobel_body_def Let_def)

lemma reflect_101_less:
  assumes "0 < len"
  shows "reflect_101 p len < len"
proof (cases "len \<le> 1")
  case True
  with assms show ?thesis
    by (simp add: reflect_101_def)
next
  case False
  then have pos: "0 < 2 * (int len - 1)"
    by simp
  have "0 \<le> p mod (2 * (int len - 1))" and "p mod (2 * (int len - 1)) < 2 * (int len - 1)"
    using pos by (simp_all only: pos_mod_sign pos_mod_bound)
  then show ?thesis
    using False unfolding reflect_101_def Let_def by auto
qed

lemma border_pixel_uniform:
  assumes "0 < h" and "0 < w"
  shows "border_pixel (replicate h (replicate w v)) y x = uint v"
  using assms reflect_101_less [of h y] reflect_101_less [of w x]
  by (simp add: border_pixel_def Let_def)

lemma sobel_sum_uniform:
  assumes "0 < h" and "0 < w"
  shows "sobel_sum (replicate h (replicate w v)) 1 1 5 i j = 0"
  by (simp add: sobel_sum_def Let_def getDerivKernel_5_1 [unfolded One_nat_def] upt_5
      border_pixel_uniform [OF assms])

lemma Sobel_uniform:
  assumes "0 < h" and "0 < w"
  shows "Sobel_same_depth (replicate h (replicate w v)) 1 1 5 = replicate h (replicate w 0)"
proof -
  have "map (\<lambda>j. saturate_u8 (sobel_sum (replicate h (replicate w v)) 1 1 5 i j)) [0..<w]
      = replicate w 0" for i
    by (simp add: sobel_sum_uniform [OF assms, unfolded One_nat_def] saturate_u8_def
        map_replicate_const)
  note row = this
  show ?thesis
  proof (rule nth_equalityI)
    show "length (Sobel_same_depth (replicate h (replicate w v)) 1 1 5) =
        length (replicate h (replicate w (0 :: 8 word)))"
      by (simp add: Sobel_same_depth_def)
  next
    fix i
    assume "i < length (Sobel_same_depth (replicate h (replicate w v)) 1 1 5)"
    then have "i < h"
      by (simp add: Sobel_same_depth_def)
    then show "Sobel_same_depth (replicate h (replicate w v)) 1 1 5 ! i =
        replicate h (replicate w 0) ! i"
      using row [of i] by (simp add: Sobel_same_depth_def)
  qed
qed

section \<open>Outcome of a run on an opened input\<close>

lemma probe_capture_info_raises_iff:
  "(\<exists>e. probe_capture_info c = Inl e) \<longleftrightarrow>
   \<not> (is_finite (capture_get c CAP_PROP_FOURCC)
      \<and> is_finite (capture_get c CAP_PROP_FRAME_HEIGHT)
      \<and> is_finite (capture_get c CAP_PROP_FRAME_WIDTH))"
  by (cases "capture_get c CAP_PROP_FOURCC";
      cases "capture_get c CAP_PROP_FRAME_HEIGHT"; cases "capture_get c CAP_PROP_FRAME_WIDTH")
     (simp_all add: probe_capture_info_def bind_err_def)

lemma capture_get_opened:
  "fs ip = Some v \<Longrightarrow> capture_get (VideoCapture fs ip) p = video_prop v p"
  by (simp add: capture_get_def VideoCapture_def)

lemma length_decoded_prefix_le: "length (decoded_prefix rs) \<le> length rs"
  by (induction rs rule: decoded_prefix.induct) simp_all

lemma length_decoded_prefix_eq_iff:
  "length (decoded_prefix rs) = length rs \<longleftrightarrow> list_all (\<lambda>r. r \<noteq> None) rs"
proof (induction rs rule: decoded_prefix.induct)
  case 1
  show ?case by simp
next
  case (2 rs)
  show ?case by simp
next
  case (3 x rs)
  then show ?case by simp
qed

lemma rest_after_failure [simp]: "rest_after (map Some xs @ None # rs) = rs"
  by (induction xs) simp_all

lemma rest_after_map_Some [simp]: "rest_after (map Some xs) = []"
  by (induction xs) simp_all

lemma grayscale_outcome:
  assumes "fs ip = Some v"
  shows "metadata_finite v \<Longrightarrow>
           raised (convert_video_to_grayscale fs ip op) = None
           \<and> written_frames (convert_video_to_grayscale fs ip op) =
               map grayscale_body (decoded_prefix (v_frames v))
           \<and> both_released (convert_video_to_grayscale fs ip op)"
    and "\<not> metadata_finite v \<Longrightarrow>
           raised (convert_video_to_grayscale fs ip op) \<noteq> None
           \<and> written_frames (convert_video_to_grayscale fs ip op) = []"
proof -
  note g = capture_get_opened [where fs = fs and ip = ip, OF assms]
  have p: "pending (VideoCapture fs ip) = v_frames v"
    using assms by (simp add: VideoCapture_Some)
  show "raised (convert_video_to_grayscale fs ip op) = None
      \<and> written_frames (convert_video_to_grayscale fs ip op) =
          map grayscale_body (decoded_prefix (v_frames v))
      \<and> both_released (convert_video_to_grayscale fs ip op)"
    if fin_v: "metadata_finite v"
  proof -
    obtain a b h w where fin:
      "capture_get (VideoCapture fs ip) CAP_PROP_FOURCC = Finite a"
      "capture_get (VideoCapture fs ip) CAP_PROP_FPS = Finite b"
      "capture_get (VideoCapture fs ip) CAP_PROP_FRAME_HEIGHT = Finite h"
      "capture_get (VideoCapture fs ip) CAP_PROP_FRAME_WIDTH = Finite w"
      using assms fin_v by (rule metadata_finiteD)
    show ?thesis
      by (simp add: grayscale_run [OF fin] written_frames_def both_released_def p)
  qed
  show "raised (convert_video_to_grayscale fs ip op) \<noteq> None
      \<and> written_frames (convert_video_to_grayscale fs ip op) = []"
    if "\<not> metadata_finite v"
  proof -
    from that have "\<exists>e. get_video_parameters (VideoCapture fs ip) = Inl e"
      unfolding get_video_parameters_raises_iff by (simp add: g metadata_finite_def)
    then obtain e where "get_video_parameters (VideoCapture fs ip) = Inl e" ..
    then show ?thesis
      by (simp add: grayscale_raises written_frames_def)
  qed
qed

lemma probe_finiteD:
  assumes "fs ip = Some v" and "probe_finite v"
  obtains a h w where "capture_get (VideoCapture fs ip) CAP_PROP_FOURCC = Finite a"
    and "capture_get (VideoCapture fs ip) CAP_PROP_FRAME_HEIGHT = Finite h"
    and "capture_get (VideoCapture fs ip) CAP_PROP_FRAME_WIDTH = Finite w"
  using assms
  by (auto simp: probe_finite_def is_finite_iff capture_get_def VideoCapture_Some)

lemma black_and_white_outcome:
  assumes "fs ip = Some v"
  shows "probe_finite v \<Longrightarrow>
           raised (convert_video_to_black_and_white fs ip op) = None
           \<and> written_frames (convert_video_to_black_and_white fs ip op) =
               map black_and_white_body (decoded_prefix (v_frames v))
           \<and> both_released (convert_video_to_black_and_white fs ip op)"
    and "\<not> probe_finite v \<Longrightarrow>
           raised (convert_video_to_black_and_white fs ip op) \<noteq> None
           \<and> written_frames (convert_video_to_black_and_white fs ip op) = []"
proof -
  note g = capture_get_opened [where fs = fs and ip = ip, OF assms]
  have p: "pending (VideoCapture fs ip) = v_frames v"
    using assms by (simp add: VideoCapture_Some)
  show "raised (convert_video_to_black_and_white fs ip op) = None
      \<and> written_frames (convert_video_to_black_and_white fs ip op) =
          map black_and_white_body (decoded_prefix (v_frames v))
      \<and> both_released (convert_video_to_black_and_white fs ip op)"
    if fin_v: "probe_finite v"
  proof -
    obtain a h w where fin:
      "capture_get (VideoCapture fs ip) CAP_PROP_FOURCC = Finite a"
      "capture_get (VideoCapture fs ip) CAP_PROP_FRAME_HEIGHT = Finite h"
      "capture_get (VideoCapture fs ip) CAP_PROP_FRAME_WIDTH = Finite w"
      using assms fin_v by (rule probe_finiteD)
    show ?thesis
      by (simp add: black_and_white_run [OF fin] written_frames_def both_released_def p)
  qed
  show "raised (convert_video_to_black_and_white fs ip op) \<noteq> None
      \<and> written_frames (convert_video_to_black_and_white fs ip op) = []"
    if "\<not> probe_finite v"
  proof -
    from that have "\<exists>e. probe_capture_info (VideoCapture fs ip) = Inl e"
      unfolding probe_capture_info_raises_iff by (simp add: g probe_finite_def)
    then obtain e where "probe_capture_info (VideoCapture fs ip) = Inl e" ..
    then show ?thesis
      by (simp add: black_and_white_raises written_frames_def)
  qed
qed

lemma sobel_outcome:
  assumes "fs ip = Some v"
  shows "probe_finite v \<Longrightarrow>
           raised (convert_video_to_sobel fs ip op) = None
           \<and> written_frames (convert_video_to_sobel fs ip op) =
               map sobel_body (decoded_prefix (v_frames v))
           \<and> both_released (convert_video_to_sobel fs ip op)"
    and "\<not> probe_finite v \<Longrightarrow>
           raised (convert_video_to_sobel fs ip op) \<noteq> None
           \<and> written_frames (convert_video_to_sobel fs ip op) = []"
proof -
  note g = capture_get_opened [where fs = fs and ip = ip, OF assms]
  have p: "pending (VideoCapture fs ip) = v_frames v"
    using assms by (simp add: VideoCapture_Some)
  show "raised (convert_video_to_sobel fs ip op) = None
      \<and> written_frames (convert_video_to_sobel fs ip op) =
          map sobel_body (decoded_prefix (v_frames v))
      \<and> both_released (convert_video_to_sobel fs ip op)"
    if fin_v: "probe_finite v"
  proof -
    obtain a h w where fin:
      "capture_get (VideoCapture fs ip) CAP_PROP_FOURCC = Finite a"
      "capture_get (VideoCapture fs ip) CAP_PROP_FRAME_HEIGHT = Finite h"
      "capture_get (VideoCapture fs ip) CAP_PROP_FRAME_WIDTH = Finite w"
      using assms fin_v by (rule probe_finiteD)
    show ?thesis
      by (simp add: sobel_run [OF fin] written_frames_def both_released_def p)
  qed
  show "raised (convert_video_to_sobel fs ip op) \<noteq> None
      \<and> written_frames (convert_video_to_sobel fs ip op) = []"
    if "\<not> probe_finite v"
  proof -
    from that have "\<exists>e. probe_capture_info (VideoCapture fs ip) = Inl e"
      unfolding probe_capture_info_raises_iff by (simp add: g probe_finite_def)
    then obtain e where "probe_capture_info (VideoCapture fs ip) = Inl e" ..
    then show ?thesis
      by (simp add: sobel_raises written_frames_def)
  qed
qed

lemma unopened_outcome:
  assumes "fs ip = None"
  shows "both_released (convert_video_to_grayscale fs ip op)"
    and "both_released (convert_video_to_black_and_white fs ip op)"
    and "both_released (convert_video_to_sobel fs ip op)"
proof -
  note z = capture_get_unopened [where fs = fs and p = ip, OF assms]
  show "both_released (convert_video_to_grayscale fs ip op)"
    by (simp add: grayscale_run [OF z z z z] both_released_def)
  show "both_released (convert_video_to_black_and_white fs ip op)"
    by (simp add: black_and_white_run [OF z z z] both_released_def)
  show "both_released (convert_video_to_sobel fs ip op)"
    by (simp add: sobel_run [OF z z z] both_released_def)
qed

section \<open>Otsu's threshold separates two luminances\<close>

lemma fold_argmin:
  fixes f :: "nat \<Rightarrow> rat"
  shows "fold (\<lambda>t best. if f t < f best then t else best) ts b \<in> insert b (set ts)
     \<and> (\<forall>t \<in> insert b (set ts). f (fold (\<lambda>t best. if f t < f best then t else best) ts b) \<le> f t)"
proof (induction ts arbitrary: b)
  case Nil
  show ?case by simp
next
  case (Cons t ts)
  let ?b = "if f t < f b then t else b"
  from Cons.IH [of ?b] show ?case
    by (auto split: if_splits intro: order_trans less_imp_le)
qed

lemma fold_argmin_keeps:
  fixes f :: "nat \<Rightarrow> rat"
  assumes "\<forall>t \<in> set ts. \<not> f t < f b"
  shows "fold (\<lambda>t best. if f t < f best then t else best) ts b = b"
  using assms by (induction ts) simp_all

lemma sum_filter_split:
  fixes g :: "nat \<Rightarrow> rat"
  shows "(\<Sum>x\<leftarrow>filter (\<lambda>x. x \<le> t) xs. g x) + (\<Sum>x\<leftarrow>filter (\<lambda>x. t < x) xs. g x)
     = (\<Sum>x\<leftarrow>xs. g x)"
  by (induction xs) auto

lemma length_filter_split:
  "length (filter (\<lambda>x. x \<le> t) xs) + length (filter (\<lambda>x. t < x) xs) = length (xs :: nat list)"
  by (induction xs) auto

lemma sum_le_bound:
  assumes "\<forall>x \<in> set xs. x \<le> t"
  shows "(\<Sum>x\<leftarrow>xs. (of_nat x :: rat)) \<le> of_nat t * of_nat (length xs)"
  using assms by (induction xs) (auto simp: algebra_simps)

lemma sum_ge_bound:
  assumes "\<forall>x \<in> set xs. t < x"
  shows "(of_nat t + 1) * of_nat (length xs) \<le> (\<Sum>x\<leftarrow>xs. (of_nat x :: rat))"
  using assms
proof (induction xs)
  case Nil
  show ?case by simp
next
  case (Cons x xs)
  then have "of_nat t + 1 \<le> (of_nat x :: rat)"
    by (metis Suc_leI list.set_intros(1) of_nat_Suc of_nat_le_iff add.commute)
  with Cons show ?case
    by (simp add: algebra_simps)
qed

lemma split_variance:
  fixes a b sa sb :: rat
  assumes "0 < a" and "0 < b" and "sa * b < sb * a"
  shows "(sa + sb)\<^sup>2 / (a + b) < sa\<^sup>2 / a + sb\<^sup>2 / b"
proof -
  have "0 < (sb * a - sa * b)\<^sup>2"
    using assms(3) by simp
  also have "(sb * a - sa * b)\<^sup>2 = (sa\<^sup>2 * b + sb\<^sup>2 * a) * (a + b) - (sa + sb)\<^sup>2 * (a * b)"
    by (simp add: power2_eq_square algebra_simps)
  finally have "(sa + sb)\<^sup>2 * (a * b) < (sa\<^sup>2 * b + sb\<^sup>2 * a) * (a + b)"
    by simp
  moreover have "sa\<^sup>2 / a + sb\<^sup>2 / b = (sa\<^sup>2 * b + sb\<^sup>2 * a) / (a * b)"
    using assms(1,2) by (simp add: field_simps)
  ultimately show ?thesis
    using assms(1,2) by (simp add: pos_divide_less_eq pos_less_divide_eq field_simps)
qed


lemma class_scatter_split_less:
  assumes lo: "filter (\<lambda>x. x \<le> t) px \<noteq> []" and hi: "filter (\<lambda>x. t < x) px \<noteq> []"
  shows "otsu_cost px t < class_scatter px"
proof -
  let ?A = "filter (\<lambda>x. x \<le> t) px" and ?B = "filter (\<lambda>x. t < x) px"
  define a b :: rat where "a = of_nat (length ?A)" and "b = of_nat (length ?B)"
  define sa sb :: rat where "sa = (\<Sum>x\<leftarrow>?A. of_nat x)" and "sb = (\<Sum>x\<leftarrow>?B. of_nat x)"
  define qa qb :: rat where "qa = (\<Sum>x\<leftarrow>?A. (of_nat x)\<^sup>2)" and "qb = (\<Sum>x\<leftarrow>?B. (of_nat x)\<^sup>2)"
  have a: "0 < a" and b: "0 < b"
    using lo hi by (simp_all add: a_def b_def)
  have px: "px \<noteq> []"
    using lo by auto
  have len: "(of_nat (length px) :: rat) = a + b"
    unfolding a_def b_def using length_filter_split [of t px]
    by (metis of_nat_add)
  have s: "(\<Sum>x\<leftarrow>px. (of_nat x :: rat)) = sa + sb"
    unfolding sa_def sb_def by (simp only: sum_filter_split)
  have q: "(\<Sum>x\<leftarrow>px. ((of_nat x)\<^sup>2 :: rat)) = qa + qb"
    unfolding qa_def qb_def by (simp only: sum_filter_split)
  have "sa \<le> of_nat t * a"
    unfolding sa_def a_def by (rule sum_le_bound) simp
  then have "sa * b \<le> of_nat t * a * b"
    using b by (simp add: mult_right_mono)
  also have "\<dots> < (of_nat t + 1) * b * a"
    using a b by (simp add: algebra_simps)
  also have "(of_nat t + 1) * b \<le> sb"
    unfolding sb_def b_def by (rule sum_ge_bound) simp
  then have "(of_nat t + 1) * b * a \<le> sb * a"
    using a by (simp add: mult_right_mono)
  finally have "sa * b < sb * a" .
  then have "(sa + sb)\<^sup>2 / (a + b) < sa\<^sup>2 / a + sb\<^sup>2 / b"
    by (rule split_variance [OF a b])
  moreover have "otsu_cost px t = (qa - sa\<^sup>2 / a) + (qb - sb\<^sup>2 / b)"
    unfolding otsu_cost_def class_scatter_def using lo hi
    by (simp add: qa_def qb_def sa_def sb_def a_def b_def)
  moreover have "class_scatter px = (qa + qb) - (sa + sb)\<^sup>2 / (a + b)"
    unfolding class_scatter_def using px by (simp only: if_False q s len)
  ultimately show ?thesis
    by simp
qed

lemma otsu_cost_unsplit:
  assumes "filter (\<lambda>x. x \<le> t) px = [] \<or> filter (\<lambda>x. t < x) px = []"
  shows "otsu_cost px t = class_scatter px"
proof -
  from assms consider "\<forall>x \<in> set px. t < x" | "\<forall>x \<in> set px. x \<le> t"
    by (auto simp: filter_empty_conv not_le not_less)
  then show ?thesis
  proof cases
    case 1
    then have "filter (\<lambda>x. t < x) px = px" and "filter (\<lambda>x. x \<le> t) px = []"
      by (auto simp: filter_empty_conv not_le intro: filter_True)
    then show ?thesis
      by (simp add: otsu_cost_def class_scatter_def)
  next
    case 2
    then have "filter (\<lambda>x. x \<le> t) px = px" and "filter (\<lambda>x. t < x) px = []"
      by (auto simp: filter_empty_conv not_less intro: filter_True)
    then show ?thesis
      by (simp add: otsu_cost_def class_scatter_def)
  qed
qed

text \<open>
  When two luminances occur, Otsu's threshold lies between two of the luminances that
  occur: a threshold with both classes inhabited costs less than one with an empty class.
\<close>

lemma otsu_separates:
  assumes x: "x \<in> set (concat g)" and y: "y \<in> set (concat g)" and xy: "x \<noteq> y"
  shows "(\<exists>p \<in> set (concat g). unat p \<le> otsu g) \<and> (\<exists>q \<in> set (concat g). otsu g < unat q)"
proof -
  define px where "px = map unat (concat g)"
  define f where "f = otsu_cost px"
  have T: "otsu g = fold (\<lambda>t best. if f t < f best then t else best) [1..<256] 0"
    by (simp add: otsu_def px_def f_def Let_def)
  define lo hi where "lo = min (unat x) (unat y)" and "hi = max (unat x) (unat y)"
  have ne: "unat x \<noteq> unat y"
    using xy by (simp add: word_unat_eq_iff)
  have lo_in: "lo \<in> set px" and hi_in: "hi \<in> set px"
    using x y by (auto simp: lo_def hi_def px_def min_def max_def)
  have lohi: "lo < hi"
    using ne by (auto simp: lo_def hi_def)
  have "lo \<le> 255"
    using unat_u8_le [of x] by (simp add: lo_def min_def)
  then have lo_range: "lo \<in> insert 0 (set [1..<256])"
    by auto
  have "filter (\<lambda>v. v \<le> lo) px \<noteq> []" and "filter (\<lambda>v. lo < v) px \<noteq> []"
    using lo_in hi_in lohi by (auto simp: filter_empty_conv)
  then have "f lo < class_scatter px"
    unfolding f_def by (rule class_scatter_split_less)
  moreover have "f (otsu g) \<le> f lo"
    unfolding T using fold_argmin [of f "[1..<256]" 0] lo_range by blast
  ultimately have "f (otsu g) \<noteq> class_scatter px"
    by simp
  then have "filter (\<lambda>v. v \<le> otsu g) px \<noteq> [] \<and> filter (\<lambda>v. otsu g < v) px \<noteq> []"
    unfolding f_def using otsu_cost_unsplit [of "otsu g" px] by blast
  then show ?thesis
    by (auto simp: filter_empty_conv px_def)
qed

text \<open>A frame of a single luminance costs the same at every threshold, and 0 is kept.\<close>

lemma class_scatter_constant:
  assumes "\<forall>x \<in> set xs. x = c"
  shows "class_scatter xs = 0"
proof (cases "xs = []")
  case True
  then show ?thesis
    by (simp add: class_scatter_def)
next
  case False
  have xs: "xs = replicate (length xs) c"
    using assms by (simp add: replicate_length_same)
  have "(\<Sum>x\<leftarrow>replicate n c. (of_nat x :: rat)) = of_nat n * of_nat c"
    and "(\<Sum>x\<leftarrow>replicate n c. ((of_nat x)\<^sup>2 :: rat)) = of_nat n * (of_nat c)\<^sup>2" for n
    by (induction n) (simp_all add: algebra_simps)
  then have "(\<Sum>x\<leftarrow>xs. (of_nat x :: rat)) = of_nat (length xs) * of_nat c"
    and "(\<Sum>x\<leftarrow>xs. ((of_nat x)\<^sup>2 :: rat)) = of_nat (length xs) * (of_nat c)\<^sup>2"
    using xs by metis+
  then show ?thesis
    using False by (simp add: class_scatter_def power2_eq_square)
qed

lemma otsu_uniform:
  assumes "\<forall>x \<in> set (concat g). x = c"
  shows "otsu g = 0"
proof -
  define px where "px = map unat (concat g)"
  have u: "\<forall>v \<in> set (filter P px). v = unat c" for P
    using assms by (auto simp: px_def)
  have "otsu_cost px t = 0" for t
    unfolding otsu_cost_def using class_scatter_constant [OF u] by simp
  then have "\<forall>t \<in> set [1..<256]. \<not> otsu_cost px t < otsu_cost px 0"
    by simp
  then show ?thesis
    unfolding otsu_def Let_def px_def [symmetric] by (rule fold_argmin_keeps)
qed

text \<open>The values of the mask of a frame, by the luminances of the frame.\<close>

lemma threshold_values_exact:
  assumes x: "x \<in> set (concat g)" and y: "y \<in> set (concat g)" and xy: "x \<noteq> y"
    and m: "maxval \<noteq> 0"
  shows "set (concat (snd (threshold_BINARY_OTSU g thresh maxval))) = {0, maxval}"
proof -
  obtain p q where p: "p \<in> set (concat g)" "unat p \<le> otsu g"
    and q: "q \<in> set (concat g)" "otsu g < unat q"
    using otsu_separates [OF x y xy] by blast
  have s: "set (concat (snd (threshold_BINARY_OTSU g thresh maxval)))
      = (\<lambda>x. if otsu g < unat x then maxval else 0) ` set (concat g)"
    by (simp add: threshold_BINARY_OTSU_def Let_def map_concat [symmetric])
  show ?thesis
    unfolding s using p q by force
qed

lemma threshold_values_uniform:
  assumes "set (concat g) = {c}"
  shows "set (concat (snd (threshold_BINARY_OTSU g thresh maxval)))
     = {if c = 0 then 0 else maxval}"
proof -
  have u: "\<forall>x \<in> set (concat g). x = c"
    using assms by simp
  have s: "set (concat (snd (threshold_BINARY_OTSU g thresh maxval)))
      = (\<lambda>x. if 0 < unat x then maxval else 0) ` set (concat g)"
    by (simp add: threshold_BINARY_OTSU_def Let_def otsu_uniform [OF u]
        map_concat [symmetric])
  show ?thesis
    unfolding s assms by (simp add: unat_gt_0)
qed

section \<open>The black-and-white frames\<close>

lemma black_and_white_body_eq:
  "black_and_white_body f =
     Color (cvtColor_GRAY2RGB (snd (threshold_BINARY_OTSU (cvtColor_BGR2GRAY f) 0 255)))"
  by (simp add: black_and_white_body_def Let_def)

lemma black_and_white_written_nth:
  assumes "k < length (written_frames (convert_video_to_black_and_white fs ip op))"
  shows "written_frames (convert_video_to_black_and_white fs ip op) ! k =
     black_and_white_body (frames_read fs ip ! k)"
  using assms unfolding black_and_white_written frames_read_def
  by (simp split: if_splits)

lemma sample_written_black_and_white:
  "written_frames (convert_video_to_black_and_white [INPUT_VIDEO \<mapsto> sample_video] INPUT_VIDEO
      BLACK_AND_WHITE_VIDEO) = [black_and_white_body sample_frame, black_and_white_body black_frame]"
proof -
  note p = sample_video_props [of "Finite 30"]
  have v: "sample_video\<lparr>v_fps := Finite 30\<rparr> = sample_video"
    by (simp add: sample_video_def)
  show ?thesis
    using black_and_white_run [OF p(1,3,4), of BLACK_AND_WHITE_VIDEO]
    unfolding v by (simp add: written_frames_def VideoCapture_def sample_video_def)
qed

lemma sample_frames_read:
  "frames_read [INPUT_VIDEO \<mapsto> sample_video] INPUT_VIDEO = [sample_frame, black_frame]"
  by (simp add: frames_read_def VideoCapture_def sample_video_def)

lemma luminances_sample_frame: "luminances sample_frame = {22, 212, 0, 255}"
  by (simp add: luminances_def sample_frame_def cvtColor_BGR2GRAY_def bgr2gray_pixel_def)

lemma luminances_black_frame: "luminances black_frame = {0}"
  by (simp add: luminances_def black_frame_def cvtColor_BGR2GRAY_def bgr2gray_pixel_def)

section \<open>The mixed derivative\<close>

lemma border_pixel_rows_equal:
  assumes "0 < h" and "row \<noteq> []"
  shows "border_pixel (replicate h row) y x = uint (row ! reflect_101 x (length row))"
  using assms reflect_101_less [of h y] reflect_101_less [of "length row" x]
  by (simp add: border_pixel_def Let_def)

lemma border_pixel_columns_equal:
  assumes "0 < w" and "col \<noteq> []"
  shows "border_pixel (map (replicate w) col) y x = uint (col ! reflect_101 y (length col))"
  using assms reflect_101_less [of "length col" y] reflect_101_less [of w x]
  by (simp add: border_pixel_def Let_def)

lemma sobel_sum_rows_equal:
  assumes "0 < h" and "row \<noteq> []"
  shows "sobel_sum (replicate h row) 1 1 5 i j = 0"
  by (simp add: sobel_sum_def Let_def getDerivKernel_5_1 [unfolded One_nat_def] upt_5
      border_pixel_rows_equal [OF assms])

lemma sobel_sum_columns_equal:
  assumes "0 < w" and "col \<noteq> []"
  shows "sobel_sum (map (replicate w) col) 1 1 5 i j = 0"
  by (simp add: sobel_sum_def Let_def getDerivKernel_5_1 [unfolded One_nat_def] upt_5
      border_pixel_columns_equal [OF assms])

lemma Sobel_rows_equal:
  assumes "0 < h" and "row \<noteq> []"
  shows "Sobel_same_depth (replicate h row) 1 1 5 = replicate h (replicate (length row) 0)"
proof (rule nth_equalityI)
  show "length (Sobel_same_depth (replicate h row) 1 1 5) =
      length (replicate h (replicate (length row) (0 :: 8 word)))"
    by (simp add: Sobel_same_depth_def)
next
  fix i
  assume "i < length (Sobel_same_depth (replicate h row) 1 1 5)"
  then have "i < h"
    by (simp add: Sobel_same_depth_def)
  then show "Sobel_same_depth (replicate h row) 1 1 5 ! i =
      replicate h (replicate (length row) 0) ! i"
    by (simp add: Sobel_same_depth_def sobel_sum_rows_equal [OF assms, unfolded One_nat_def]
        saturate_u8_def map_replicate_const)
qed

lemma Sobel_columns_equal:
  assumes "0 < w" and "col \<noteq> []"
  shows "Sobel_same_depth (map (replicate w) col) 1 1 5 = replicate (length col) (replicate w 0)"
proof (rule nth_equalityI)
  show "length (Sobel_same_depth (map (replicate w) col) 1 1 5) =
      length (replicate (length col) (replicate w (0 :: 8 word)))"
    by (simp add: Sobel_same_depth_def)
next
  fix i
  assume "i < length (Sobel_same_depth (map (replicate w) col) 1 1 5)"
  then have "i < length col"
    by (simp add: Sobel_same_depth_def)
  then show "Sobel_same_depth (map (replicate w) col) 1 1 5 ! i =
      replicate (length col) (replicate w 0) ! i"
    by (simp add: Sobel_same_depth_def sobel_sum_columns_equal [OF assms, unfolded One_nat_def]
        saturate_u8_def map_replicate_const)
qed

lemma shapes_written_sobel:
  "written_frames (convert_video_to_sobel [INPUT_VIDEO \<mapsto> shapes_video] INPUT_VIDEO
      SOBEL_VIDEO) = [sobel_body edge_frame, sobel_body stair_frame]"
proof -
  have "capture_get (VideoCapture [INPUT_VIDEO \<mapsto> shapes_video] INPUT_VIDEO)
      CAP_PROP_FOURCC = Finite 1145656920"
    and "capture_get (VideoCapture [INPUT_VIDEO \<mapsto> shapes_video] INPUT_VIDEO)
      CAP_PROP_FRAME_HEIGHT = Finite 5"
    and "capture_get (VideoCapture [INPUT_VIDEO \<mapsto> shapes_video] INPUT_VIDEO)
      CAP_PROP_FRAME_WIDTH = Finite 5"
    by (simp_all add: capture_get_def VideoCapture_def shapes_video_def)
  from sobel_run [OF this, of SOBEL_VIDEO] show ?thesis
    by (simp add: written_frames_def VideoCapture_def shapes_video_def)
qed

lemma shapes_frames_read:
  "frames_read [INPUT_VIDEO \<mapsto> shapes_video] INPUT_VIDEO = [edge_frame, stair_frame]"
  by (simp add: frames_read_def VideoCapture_def shapes_video_def)

lemma gray_edge_frame: "cvtColor_BGR2GRAY edge_frame = replicate 5 [0, 0, 255, 255, 255]"
  by (simp add: edge_frame_def cvtColor_BGR2GRAY_def bgr2gray_pixel_def)

lemma gray_stair_frame:
  "cvtColor_BGR2GRAY stair_frame =
     [[0, 100, 100, 100, 100], [0, 0, 100, 100, 100], [0, 0, 0, 100, 100],
      [0, 0, 0, 0, 100], [0, 0, 0, 0, 0]]"
  by (simp add: stair_frame_def cvtColor_BGR2GRAY_def bgr2gray_pixel_def)

lemma stair_sums:
  "sobel_sum [[0, 100, 100, 100, 100], [0, 0, 100, 100, 100], [0, 0, 0, 100, 100],
      [0, 0, 0, 0, 100], [0, 0, 0, 0, 0]] 1 1 5 1 2 = 200"
  "sobel_sum [[0, 100, 100, 100, 100], [0, 0, 100, 100, 100], [0, 0, 0, 100, 100],
      [0, 0, 0, 0, 100], [0, 0, 0, 0, 0]] 1 1 5 1 3 = 700"
  "sobel_sum [[0, 100, 100, 100, 100], [0, 0, 100, 100, 100], [0, 0, 0, 100, 100],
      [0, 0, 0, 0, 100], [0, 0, 0, 0, 0]] 1 1 5 2 2 = - 500"
  by (simp_all add: sobel_sum_def Let_def getDerivKernel_5_1 [unfolded One_nat_def] upt_5
      border_pixel_def reflect_101_def)

section \<open>The claims\<close>

text \<open>
  C1 as stated fails, in two ways. On an input whose frame rate reads as NaN the grayscale
  pipeline raises in its probe and writes none of the two frames. On an input with finite
  metadata whose second frame fails to decode, it writes one frame for an input of three.
\<close>

theorem C1_counterexample_frame_counts_differ:
  "raised (convert_video_to_grayscale [INPUT_VIDEO \<mapsto> nan_video] INPUT_VIDEO GRAYSCALE_VIDEO)
     = Some ValueError
   \<and> length (written_frames (convert_video_to_grayscale [INPUT_VIDEO \<mapsto> nan_video]
        INPUT_VIDEO GRAYSCALE_VIDEO)) = 0
   \<and> length (v_frames nan_video) = 2
   \<and> length (written_frames (convert_video_to_grayscale [INPUT_VIDEO \<mapsto> damaged_video]
        INPUT_VIDEO GRAYSCALE_VIDEO)) = 1
   \<and> length (v_frames damaged_video) = 3"
proof -
  have "get_video_parameters (VideoCapture [INPUT_VIDEO \<mapsto> nan_video] INPUT_VIDEO)
      = Inl ValueError"
    by (simp add: get_video_parameters_def bind_err_def capture_get_def VideoCapture_def
        nan_video_def sample_video_def)
  then have n: "raised (convert_video_to_grayscale [INPUT_VIDEO \<mapsto> nan_video] INPUT_VIDEO
        GRAYSCALE_VIDEO) = Some ValueError"
    "length (written_frames (convert_video_to_grayscale [INPUT_VIDEO \<mapsto> nan_video]
        INPUT_VIDEO GRAYSCALE_VIDEO)) = 0"
    by (simp_all add: grayscale_raises written_frames_def)
  have "metadata_finite damaged_video"
    by (simp add: metadata_finite_def damaged_video_def sample_video_def)
  then have d: "length (written_frames (convert_video_to_grayscale
        [INPUT_VIDEO \<mapsto> damaged_video] INPUT_VIDEO GRAYSCALE_VIDEO)) = 1"
    using grayscale_outcome(1) [where fs = "[INPUT_VIDEO \<mapsto> damaged_video]"
        and ip = INPUT_VIDEO and v = damaged_video and op = GRAYSCALE_VIDEO]
    by (simp add: damaged_video_def)
  show ?thesis
    using n d by (simp add: nan_video_def damaged_video_def sample_video_def)
qed

text \<open>
  C1, amended. For every input video whose metadata is finite (the codec tag, the height and
  the width, and for the grayscale pipeline also the frame rate), each of the three
  conversion pipelines returns without error and writes exactly one output frame per
  successfully read input frame, in source order; the frames read are those before the
  first failed read, so each output's frame count equals the input's frame count exactly
  when every frame of the input decodes, with no frame skipped, dropped, duplicated or
  reordered; in particular a zero-frame input produces a zero-frame output for all three
  pipelines. When that metadata is not finite the pipeline raises and writes no frame.
\<close>

theorem C1_one_written_frame_per_decoded_frame:
  assumes "fs ip = Some v"
  shows "(raised (convert_video_to_grayscale fs ip out_g) = None \<longleftrightarrow> metadata_finite v)
     \<and> (raised (convert_video_to_black_and_white fs ip out_b) = None \<longleftrightarrow> probe_finite v)
     \<and> (raised (convert_video_to_sobel fs ip out_s) = None \<longleftrightarrow> probe_finite v)
     \<and> written_frames (convert_video_to_grayscale fs ip out_g) =
         (if metadata_finite v then map grayscale_body (decoded_prefix (v_frames v)) else [])
     \<and> written_frames (convert_video_to_black_and_white fs ip out_b) =
         (if probe_finite v then map black_and_white_body (decoded_prefix (v_frames v)) else [])
     \<and> written_frames (convert_video_to_sobel fs ip out_s) =
         (if probe_finite v then map sobel_body (decoded_prefix (v_frames v)) else [])
     \<and> (metadata_finite v \<longrightarrow>
          (length (written_frames (convert_video_to_grayscale fs ip out_g)) =
             length (v_frames v) \<longleftrightarrow> list_all (\<lambda>r. r \<noteq> None) (v_frames v)))
     \<and> (probe_finite v \<longrightarrow>
          (length (written_frames (convert_video_to_black_and_white fs ip out_b)) =
             length (v_frames v) \<longleftrightarrow> list_all (\<lambda>r. r \<noteq> None) (v_frames v))
          \<and> (length (written_frames (convert_video_to_sobel fs ip out_s)) =
             length (v_frames v) \<longleftrightarrow> list_all (\<lambda>r. r \<noteq> None) (v_frames v)))
     \<and> (v_frames v = [] \<longrightarrow>
          written_frames (convert_video_to_grayscale fs ip out_g) = []
          \<and> written_frames (convert_video_to_black_and_white fs ip out_b) = []
          \<and> written_frames (convert_video_to_sobel fs ip out_s) = [])"
proof -
  note g = grayscale_outcome [where fs = fs and ip = ip and op = out_g, OF assms]
  note b = black_and_white_outcome [where fs = fs and ip = ip and op = out_b, OF assms]
  note s = sobel_outcome [where fs = fs and ip = ip and op = out_s, OF assms]
  show ?thesis
    using g b s
    by (cases "metadata_finite v"; cases "probe_finite v")
       (simp_all add: length_decoded_prefix_eq_iff)
qed

theorem C1_witness:
  "[INPUT_VIDEO \<mapsto> sample_video] INPUT_VIDEO = Some sample_video
   \<and> metadata_finite sample_video \<and> probe_finite sample_video
   \<and> list_all (\<lambda>r. r \<noteq> None) (v_frames sample_video)
   \<and> length (v_frames sample_video) = 2
   \<and> raised (convert_video_to_grayscale [INPUT_VIDEO \<mapsto> sample_video]
        INPUT_VIDEO GRAYSCALE_VIDEO) = None
   \<and> written_frames (convert_video_to_grayscale [INPUT_VIDEO \<mapsto> sample_video]
        INPUT_VIDEO GRAYSCALE_VIDEO) = [grayscale_body sample_frame, grayscale_body black_frame]
   \<and> length (written_frames (convert_video_to_black_and_white [INPUT_VIDEO \<mapsto> sample_video]
        INPUT_VIDEO BLACK_AND_WHITE_VIDEO)) = 2
   \<and> length (written_frames (convert_video_to_sobel [INPUT_VIDEO \<mapsto> sample_video]
        INPUT_VIDEO SOBEL_VIDEO)) = 2"
proof -
  have h1: "[INPUT_VIDEO \<mapsto> sample_video] INPUT_VIDEO = Some sample_video"
    by simp
  have h2: "metadata_finite sample_video" and h3: "probe_finite sample_video"
    by (simp_all add: metadata_finite_def probe_finite_def sample_video_def)
  have h4: "list_all (\<lambda>r. r \<noteq> None) (v_frames sample_video)"
    and h5: "length (v_frames sample_video) = 2"
    and h6: "decoded_prefix (v_frames sample_video) = [sample_frame, black_frame]"
    by (simp_all add: sample_video_def)
  show ?thesis
    using h1 h2 h3 h4 h5
      C1_one_written_frame_per_decoded_frame [where fs = "[INPUT_VIDEO \<mapsto> sample_video]"
        and ip = INPUT_VIDEO and v = sample_video and out_g = GRAYSCALE_VIDEO
        and out_b = BLACK_AND_WHITE_VIDEO and out_s = SOBEL_VIDEO, OF h1]
    by (simp add: h6)
qed

text \<open>
  C2 as stated fails: a frame of a single colour gives a mask of a single value. The second
  frame of the sample video is black, and the black-and-white frame written for it contains
  the value 0 only.
\<close>

theorem C2_counterexample_uniform_frame:
  "written_frames (convert_video_to_black_and_white [INPUT_VIDEO \<mapsto> sample_video] INPUT_VIDEO
      BLACK_AND_WHITE_VIDEO) ! 1 = Color [[(0, 0, 0), (0, 0, 0)], [(0, 0, 0), (0, 0, 0)]]
   \<and> pixel_values (Color [[(0, 0, 0), (0, 0, 0)], [(0, 0, 0), (0, 0, 0)]]) \<noteq> {0, 255}"
proof -
  have b: "black_and_white_body black_frame
      = Color [[(0, 0, 0), (0, 0, 0)], [(0, 0, 0), (0, 0, 0)]]"
    by (simp add: black_and_white_body_def black_frame_def cvtColor_BGR2GRAY_def
        bgr2gray_pixel_def threshold_BINARY_OTSU_def cvtColor_GRAY2RGB_def Let_def)
  have "pixel_values (Color [[(0, 0, 0), (0, 0, 0)], [(0, 0, 0), (0, 0, 0)]]) \<noteq> {0, 255}"
    by auto
  then show ?thesis
    using b by (simp add: sample_written_black_and_white)
qed

text \<open>
  C2, amended. In every frame of the black-and-white output, the three channels of every
  pixel are equal to each other, and the set of distinct luminance values occurring in the
  frame is a subset of {0, 255}; it is exactly {0, 255} whenever the luminance of the input
  frame takes at least two values, and when the input frame has a single luminance it is {0}
  if that luminance is 0 and {255} otherwise.
\<close>

theorem C2_black_and_white_frames_are_masks:
  "k < length (written_frames (convert_video_to_black_and_white fs ip op)) \<Longrightarrow>
     monochrome_rgb (written_frames (convert_video_to_black_and_white fs ip op) ! k)
     \<and> pixel_values (written_frames (convert_video_to_black_and_white fs ip op) ! k)
          \<subseteq> {0, 255}
     \<and> ((\<exists>x \<in> luminances (frames_read fs ip ! k). \<exists>y \<in> luminances (frames_read fs ip ! k).
            x \<noteq> y) \<longrightarrow>
          pixel_values (written_frames (convert_video_to_black_and_white fs ip op) ! k)
            = {0, 255})
     \<and> (\<forall>c. luminances (frames_read fs ip ! k) = {c} \<longrightarrow>
          pixel_values (written_frames (convert_video_to_black_and_white fs ip op) ! k)
            = {if c = 0 then 0 else 255})"
proof -
  assume "k < length (written_frames (convert_video_to_black_and_white fs ip op))"
  then have w: "written_frames (convert_video_to_black_and_white fs ip op) ! k =
      black_and_white_body (frames_read fs ip ! k)"
    by (rule black_and_white_written_nth)
  let ?g = "cvtColor_BGR2GRAY (frames_read fs ip ! k)"
  have "pixel_values (black_and_white_body (frames_read fs ip ! k)) = {0, 255}"
    if "\<exists>x \<in> set (concat ?g). \<exists>y \<in> set (concat ?g). x \<noteq> y"
  proof -
    from that obtain x y where "x \<in> set (concat ?g)" and "y \<in> set (concat ?g)" and "x \<noteq> y"
      by blast
    then show ?thesis
      unfolding black_and_white_body_eq pixel_values_GRAY2RGB
      by (rule threshold_values_exact) simp
  qed
  moreover have "pixel_values (black_and_white_body (frames_read fs ip ! k))
      = {if c = 0 then 0 else 255}" if "set (concat ?g) = {c}" for c
    unfolding black_and_white_body_eq pixel_values_GRAY2RGB
    using that by (rule threshold_values_uniform)
  moreover have "monochrome_rgb (black_and_white_body (frames_read fs ip ! k))"
    and "pixel_values (black_and_white_body (frames_read fs ip ! k)) \<subseteq> {0, 255}"
    using black_and_white_body_values [of "frames_read fs ip ! k"] by simp_all
  ultimately show ?thesis
    unfolding w luminances_def by blast
qed

theorem C2_witness:
  "0 < length (written_frames (convert_video_to_black_and_white [INPUT_VIDEO \<mapsto> sample_video]
        INPUT_VIDEO BLACK_AND_WHITE_VIDEO))
   \<and> luminances (frames_read [INPUT_VIDEO \<mapsto> sample_video] INPUT_VIDEO ! 0) = {22, 212, 0, 255}
   \<and> monochrome_rgb (written_frames (convert_video_to_black_and_white
        [INPUT_VIDEO \<mapsto> sample_video] INPUT_VIDEO BLACK_AND_WHITE_VIDEO) ! 0)
   \<and> pixel_values (written_frames (convert_video_to_black_and_white
        [INPUT_VIDEO \<mapsto> sample_video] INPUT_VIDEO BLACK_AND_WHITE_VIDEO) ! 0) = {0, 255}
   \<and> 1 < length (written_frames (convert_video_to_black_and_white [INPUT_VIDEO \<mapsto> sample_video]
        INPUT_VIDEO BLACK_AND_WHITE_VIDEO))
   \<and> luminances (frames_read [INPUT_VIDEO \<mapsto> sample_video] INPUT_VIDEO ! 1) = {0}
   \<and> pixel_values (written_frames (convert_video_to_black_and_white
        [INPUT_VIDEO \<mapsto> sample_video] INPUT_VIDEO BLACK_AND_WHITE_VIDEO) ! 1) = {0}"
proof -
  have k: "0 < length (written_frames (convert_video_to_black_and_white
      [INPUT_VIDEO \<mapsto> sample_video] INPUT_VIDEO BLACK_AND_WHITE_VIDEO))"
    and k': "1 < length (written_frames (convert_video_to_black_and_white
      [INPUT_VIDEO \<mapsto> sample_video] INPUT_VIDEO BLACK_AND_WHITE_VIDEO))"
    by (simp_all add: sample_written_black_and_white)
  have l: "luminances (frames_read [INPUT_VIDEO \<mapsto> sample_video] INPUT_VIDEO ! 0)
      = {22, 212, 0, 255}"
    and l': "luminances (frames_read [INPUT_VIDEO \<mapsto> sample_video] INPUT_VIDEO ! 1) = {0}"
    by (simp_all add: sample_frames_read luminances_sample_frame luminances_black_frame)
  have "(0 :: 8 word) \<in> {22, 212, 0, 255}" and "(255 :: 8 word) \<in> {22, 212, 0, 255}"
    and "(0 :: 8 word) \<noteq> 255"
    by simp_all
  then have two: "\<exists>x \<in> luminances (frames_read [INPUT_VIDEO \<mapsto> sample_video] INPUT_VIDEO ! 0).
      \<exists>y \<in> luminances (frames_read [INPUT_VIDEO \<mapsto> sample_video] INPUT_VIDEO ! 0). x \<noteq> y"
    unfolding l by blast
  have "pixel_values (written_frames (convert_video_to_black_and_white
      [INPUT_VIDEO \<mapsto> sample_video] INPUT_VIDEO BLACK_AND_WHITE_VIDEO) ! 1)
      = {if (0 :: 8 word) = 0 then 0 else 255}"
    using C2_black_and_white_frames_are_masks [OF k'] l' by blast
  then have one: "pixel_values (written_frames (convert_video_to_black_and_white
      [INPUT_VIDEO \<mapsto> sample_video] INPUT_VIDEO BLACK_AND_WHITE_VIDEO) ! 1) = {0}"
    by simp
  show ?thesis
    using k k' l l' two one C2_black_and_white_frames_are_masks [OF k] by blast
qed

text \<open>
  C3 as stated fails: the filter does not approximate edge magnitude. The first frame of the
  shapes video has a vertical edge of full contrast, luminance 0 on its left and 255 on its
  right, and the sobel frame written for it is black everywhere, as it is for a frame with
  no edge at all.
\<close>

theorem C3_counterexample_vertical_edge_invisible:
  "cvtColor_BGR2GRAY (frames_read [INPUT_VIDEO \<mapsto> shapes_video] INPUT_VIDEO ! 0)
     = replicate 5 [0, 0, 255, 255, 255]
   \<and> written_frames (convert_video_to_sobel [INPUT_VIDEO \<mapsto> shapes_video] INPUT_VIDEO
        SOBEL_VIDEO) ! 0 = Color (replicate 5 (replicate 5 (0, 0, 0)))"
proof -
  have l: "length [0, 0, 255, 255, 255 :: 8 word] = 5"
    by simp
  have "Sobel_same_depth (replicate 5 [0, 0, 255, 255, 255]) 1 1 5
      = replicate 5 (replicate 5 0)"
    using Sobel_rows_equal [of 5 "[0, 0, 255, 255, 255]", unfolded l] by simp
  moreover have "cvtColor_GRAY2RGB (replicate 5 (replicate 5 0))
      = replicate 5 (replicate 5 (0, 0, 0))"
    by (simp add: cvtColor_GRAY2RGB_def)
  ultimately have "sobel_body edge_frame = Color (replicate 5 (replicate 5 (0, 0, 0)))"
    unfolding sobel_body_eq gray_edge_frame by (simp only:)
  then show ?thesis
    by (simp add: shapes_frames_read shapes_written_sobel gray_edge_frame)
qed

text \<open>
  C3, amended. The sobel pipeline transforms each frame by converting it to single-channel
  luminance, applying a convolution of kernel size 5 that takes a first-order derivative
  simultaneously in both the horizontal and vertical directions, with output pixel values
  saturating-clamped to the source's 8-bit depth (not raw signed gradients), and then
  replicating the single output channel into 3 equal channels before writing. The filter is
  the mixed derivative: its kernel is the product of \<open>[-1, -2, 0, 2, 1]\<close> along the rows and
  along the columns, every output pixel is the sum of the 5 by 5 products with the mirrored
  neighbourhood, clamped to \<open>0..255\<close>, and it is 0 everywhere on a frame whose rows are all
  equal and on a frame whose columns are all equal, so it responds to corners and diagonal
  structure and not to straight vertical or horizontal edges: it is not an edge magnitude.
\<close>

theorem C3_sobel_pipeline_transform:
  "written_frames (convert_video_to_sobel fs ip op) =
     (if raised (convert_video_to_sobel fs ip op) = None
      then map (\<lambda>f. Color (cvtColor_GRAY2RGB
                 (Sobel_same_depth (cvtColor_BGR2GRAY f) 1 1 5))) (frames_read fs ip)
      else [])
   \<and> (\<forall>img \<in> set (written_frames (convert_video_to_sobel fs ip op)). monochrome_rgb img)
   \<and> getDerivKernel 5 1 = [- 1, - 2, 0, 2, 1]
   \<and> (i < length g \<and> j < length (g ! i) \<longrightarrow>
        uint (Sobel_same_depth g 1 1 5 ! i ! j) =
          max 0 (min 255
            (\<Sum>a\<leftarrow>[0..<5]. \<Sum>b\<leftarrow>[0..<5].
               [- 1, - 2, 0, 2, 1] ! a * [- 1, - 2, 0, 2, 1] ! b
                 * border_pixel g (int i + int a - 2) (int j + int b - 2))))
   \<and> (0 < h \<and> 0 < w \<longrightarrow>
        Sobel_same_depth (replicate h (replicate w v)) 1 1 5 = replicate h (replicate w 0))
   \<and> (0 < h \<and> row \<noteq> [] \<longrightarrow>
        Sobel_same_depth (replicate h row) 1 1 5 = replicate h (replicate (length row) 0))
   \<and> (0 < w \<and> col \<noteq> [] \<longrightarrow>
        Sobel_same_depth (map (replicate w) col) 1 1 5
          = replicate (length col) (replicate w 0))"
proof (intro conjI impI ballI)
  show "written_frames (convert_video_to_sobel fs ip op) =
     (if raised (convert_video_to_sobel fs ip op) = None
      then map (\<lambda>f. Color (cvtColor_GRAY2RGB
                 (Sobel_same_depth (cvtColor_BGR2GRAY f) 1 1 5))) (frames_read fs ip)
      else [])"
    unfolding sobel_written frames_read_def by (simp add: sobel_body_eq [abs_def])
next
  fix img
  assume "img \<in> set (written_frames (convert_video_to_sobel fs ip op))"
  then obtain f where "img = sobel_body f"
    unfolding sobel_written by (auto split: if_splits)
  then show "monochrome_rgb img"
    unfolding sobel_body_eq by (simp only: monochrome_GRAY2RGB)
next
  show "getDerivKernel 5 1 = [- 1, - 2, 0, 2, 1]"
    by (rule getDerivKernel_5_1)
next
  assume ij: "i < length g \<and> j < length (g ! i)"
  have "sobel_sum g 1 1 5 i j =
      (\<Sum>a\<leftarrow>[0..<5]. \<Sum>b\<leftarrow>[0..<5].
         [- 1, - 2, 0, 2, 1] ! a * [- 1, - 2, 0, 2, 1] ! b
           * border_pixel g (int i + int a - 2) (int j + int b - 2))"
    unfolding sobel_sum_def Let_def getDerivKernel_5_1 by simp
  then show "uint (Sobel_same_depth g 1 1 5 ! i ! j) =
      max 0 (min 255
        (\<Sum>a\<leftarrow>[0..<5]. \<Sum>b\<leftarrow>[0..<5].
           [- 1, - 2, 0, 2, 1] ! a * [- 1, - 2, 0, 2, 1] ! b
             * border_pixel g (int i + int a - 2) (int j + int b - 2)))"
    using ij by (simp only: Sobel_same_depth_nth uint_saturate_u8)
next
  assume "0 < h \<and> 0 < w"
  then show "Sobel_same_depth (replicate h (replicate w v)) 1 1 5 = replicate h (replicate w 0)"
    by (simp only: Sobel_uniform)
next
  assume "0 < h \<and> row \<noteq> []"
  then show "Sobel_same_depth (replicate h row) 1 1 5 = replicate h (replicate (length row) 0)"
    using Sobel_rows_equal [of h row] by blast
next
  assume "0 < w \<and> col \<noteq> []"
  then show "Sobel_same_depth (map (replicate w) col) 1 1 5
      = replicate (length col) (replicate w 0)"
    using Sobel_columns_equal [of w col] by blast
qed

theorem C3_witness:
  "written_frames (convert_video_to_sobel [INPUT_VIDEO \<mapsto> shapes_video] INPUT_VIDEO
      SOBEL_VIDEO) ! 1
     = Color (cvtColor_GRAY2RGB (Sobel_same_depth (cvtColor_BGR2GRAY stair_frame) 1 1 5))
   \<and> monochrome_rgb (written_frames (convert_video_to_sobel [INPUT_VIDEO \<mapsto> shapes_video]
        INPUT_VIDEO SOBEL_VIDEO) ! 1)
   \<and> uint (Sobel_same_depth (cvtColor_BGR2GRAY stair_frame) 1 1 5 ! 1 ! 2) = 200
   \<and> sobel_sum (cvtColor_BGR2GRAY stair_frame) 1 1 5 1 3 = 700
   \<and> uint (Sobel_same_depth (cvtColor_BGR2GRAY stair_frame) 1 1 5 ! 1 ! 3) = 255
   \<and> sobel_sum (cvtColor_BGR2GRAY stair_frame) 1 1 5 2 2 = - 500
   \<and> uint (Sobel_same_depth (cvtColor_BGR2GRAY stair_frame) 1 1 5 ! 2 ! 2) = 0
   \<and> Sobel_same_depth (replicate 2 (replicate 3 7)) 1 1 5 = replicate 2 (replicate 3 0)
   \<and> Sobel_same_depth (replicate 5 [0, 0, 255, 255, 255]) 1 1 5 = replicate 5 (replicate 5 0)
   \<and> Sobel_same_depth (map (replicate 5) [0, 0, 255, 255, 255]) 1 1 5
        = replicate 5 (replicate 5 0)"
proof -
  let ?fs = "[INPUT_VIDEO \<mapsto> shapes_video]"
  let ?g = "[[0, 100, 100, 100, 100], [0, 0, 100, 100, 100], [0, 0, 0, 100, 100],
      [0, 0, 0, 0, 100], [0, 0, 0, 0, 0 :: 8 word]]"
  note C = C3_sobel_pipeline_transform [where fs = ?fs and ip = INPUT_VIDEO and op = SOBEL_VIDEO
      and g = ?g and h = 2 and w = 3 and v = 7]
  have s: "sobel_sum ?g 1 1 5 i j =
      (\<Sum>a\<leftarrow>[0..<5]. \<Sum>b\<leftarrow>[0..<5].
         [- 1, - 2, 0, 2, 1] ! a * [- 1, - 2, 0, 2, 1] ! b
           * border_pixel ?g (int i + int a - 2) (int j + int b - 2))" for i j
    unfolding sobel_sum_def Let_def getDerivKernel_5_1 by simp
  note c1 = C [of 0 0 "[0]" "[0]", THEN conjunct1]
  note c2 = C [of 0 0 "[0]" "[0]", THEN conjunct2, THEN conjunct1]
  note c4 = C [THEN conjunct2, THEN conjunct2, THEN conjunct2, THEN conjunct1]
  note c5 = C [of 0 0 "[0]" "[0]", THEN conjunct2, THEN conjunct2, THEN conjunct2,
      THEN conjunct2, THEN conjunct1]
  have "raised (convert_video_to_sobel ?fs INPUT_VIDEO SOBEL_VIDEO) = None"
    using c1 unfolding shapes_written_sobel by (simp split: if_splits)
  then have w: "written_frames (convert_video_to_sobel ?fs INPUT_VIDEO SOBEL_VIDEO) ! 1
      = Color (cvtColor_GRAY2RGB (Sobel_same_depth (cvtColor_BGR2GRAY stair_frame) 1 1 5))"
    using c1 by (simp add: shapes_frames_read)
  have "written_frames (convert_video_to_sobel ?fs INPUT_VIDEO SOBEL_VIDEO) ! 1
      \<in> set (written_frames (convert_video_to_sobel ?fs INPUT_VIDEO SOBEL_VIDEO))"
    by (simp add: shapes_written_sobel)
  then have m: "monochrome_rgb (written_frames (convert_video_to_sobel ?fs INPUT_VIDEO
      SOBEL_VIDEO) ! 1)"
    using c2 by blast
  have p1: "uint (Sobel_same_depth ?g 1 1 5 ! 1 ! 2) = 200"
    using c4 [of 1 2] stair_sums(1) unfolding s by simp
  have p2: "uint (Sobel_same_depth ?g 1 1 5 ! 1 ! 3) = 255"
    using c4 [of 1 3] stair_sums(2) unfolding s by simp
  have p3: "uint (Sobel_same_depth ?g 1 1 5 ! 2 ! 2) = 0"
    using c4 [of 2 2] stair_sums(3) unfolding s by simp
  have u: "Sobel_same_depth (replicate 2 (replicate 3 7)) 1 1 5 = replicate 2 (replicate 3 0)"
    using c5 by simp
  have l: "length [0, 0, 255, 255, 255 :: 8 word] = 5"
    by simp
  have r: "Sobel_same_depth (replicate 5 [0, 0, 255, 255, 255]) 1 1 5
      = replicate 5 (replicate 5 0)"
    using C3_sobel_pipeline_transform [where h = 5 and row = "[0, 0, 255, 255, 255]",
        THEN conjunct2, THEN conjunct2, THEN conjunct2, THEN conjunct2, THEN conjunct2,
        THEN conjunct1, unfolded l]
    by simp
  have c: "Sobel_same_depth (map (replicate 5) [0, 0, 255, 255, 255]) 1 1 5
      = replicate 5 (replicate 5 0)"
    using C3_sobel_pipeline_transform [where w = 5 and col = "[0, 0, 255, 255, 255]",
        THEN conjunct2, THEN conjunct2, THEN conjunct2, THEN conjunct2, THEN conjunct2,
        THEN conjunct2, unfolded l]
    by simp
  show ?thesis
    unfolding gray_stair_frame using w m p1 p2 p3 u r c stair_sums(2,3)
    by (simp only: gray_stair_frame simp_thms)
qed




text \<open>
  C5 as stated fails. The code has no handler and no scoped release: when the frame rate of
  the container reads as infinite, \<open>int\<close> raises in the probe of the grayscale pipeline,
  after the capture was made, and the capture is never released.
\<close>

theorem C5_counterexample_capture_not_released:
  "raised (convert_video_to_grayscale [INPUT_VIDEO \<mapsto> broken_timebase_video] INPUT_VIDEO
      GRAYSCALE_VIDEO) = Some OverflowError
   \<and> \<not> cap_released (run_capture (convert_video_to_grayscale
      [INPUT_VIDEO \<mapsto> broken_timebase_video] INPUT_VIDEO GRAYSCALE_VIDEO))"
proof -
  have "get_video_parameters (VideoCapture [INPUT_VIDEO \<mapsto> broken_timebase_video] INPUT_VIDEO)
      = Inl OverflowError"
    by (simp add: get_video_parameters_def bind_err_def capture_get_def VideoCapture_def
        broken_timebase_video_def sample_video_def)
  then show ?thesis
    by (simp add: grayscale_raises)
qed

text \<open>
  C5, amended. In every conversion pipeline, the input capture and the output writer are
  both released on every exit path of the pipeline on which no exception is raised,
  including early termination at a failed read, regardless of how many frames were
  processed. These are all the exit paths of a run on an input that cannot be opened and of
  a run on an input whose metadata is finite.
\<close>

theorem C5_released_on_every_normal_exit:
  "(raised (convert_video_to_grayscale fs ip out_g) = None \<longrightarrow>
      both_released (convert_video_to_grayscale fs ip out_g))
   \<and> (raised (convert_video_to_black_and_white fs ip out_b) = None \<longrightarrow>
      both_released (convert_video_to_black_and_white fs ip out_b))
   \<and> (raised (convert_video_to_sobel fs ip out_s) = None \<longrightarrow>
      both_released (convert_video_to_sobel fs ip out_s))
   \<and> (fs ip = None \<or> (\<exists>v. fs ip = Some v \<and> metadata_finite v) \<longrightarrow>
      raised (convert_video_to_grayscale fs ip out_g) = None
      \<and> both_released (convert_video_to_grayscale fs ip out_g))
   \<and> (fs ip = None \<or> (\<exists>v. fs ip = Some v \<and> probe_finite v) \<longrightarrow>
      raised (convert_video_to_black_and_white fs ip out_b) = None
      \<and> both_released (convert_video_to_black_and_white fs ip out_b)
      \<and> raised (convert_video_to_sobel fs ip out_s) = None
      \<and> both_released (convert_video_to_sobel fs ip out_s))"
proof -
  note g = run_exit_paths(1) [of fs ip out_g]
  note b = run_exit_paths(2) [of fs ip out_b]
  note s = run_exit_paths(3) [of fs ip out_s]
  have none: "both_released (convert_video_to_grayscale fs ip out_g)
      \<and> both_released (convert_video_to_black_and_white fs ip out_b)
      \<and> both_released (convert_video_to_sobel fs ip out_s)" if "fs ip = None"
    using unopened_outcome [where fs = fs and ip = ip, OF that] by simp
  have fin_g: "both_released (convert_video_to_grayscale fs ip out_g)"
    if "\<exists>v. fs ip = Some v \<and> metadata_finite v"
  proof -
    from that obtain v where v: "fs ip = Some v" "metadata_finite v"
      by blast
    show ?thesis
      using grayscale_outcome(1) [where fs = fs and ip = ip, OF v] by simp
  qed
  have fin_c: "both_released (convert_video_to_black_and_white fs ip out_b)
      \<and> both_released (convert_video_to_sobel fs ip out_s)"
    if "\<exists>v. fs ip = Some v \<and> probe_finite v"
  proof -
    from that obtain v where v: "fs ip = Some v" "probe_finite v"
      by blast
    show ?thesis
      using black_and_white_outcome(1) [where fs = fs and ip = ip, OF v]
        sobel_outcome(1) [where fs = fs and ip = ip, OF v] by simp
  qed
  have rel_g: "both_released (convert_video_to_grayscale fs ip out_g) \<Longrightarrow>
      raised (convert_video_to_grayscale fs ip out_g) = None"
    using g by (auto simp: both_released_def)
  have rel_b: "both_released (convert_video_to_black_and_white fs ip out_b) \<Longrightarrow>
      raised (convert_video_to_black_and_white fs ip out_b) = None"
    using b by (auto simp: both_released_def)
  have rel_s: "both_released (convert_video_to_sobel fs ip out_s) \<Longrightarrow>
      raised (convert_video_to_sobel fs ip out_s) = None"
    using s by (auto simp: both_released_def)
  show ?thesis
    using g b s none fin_g fin_c rel_g rel_b rel_s by blast
qed

theorem C5_witness:
  "[INPUT_VIDEO \<mapsto> damaged_video] INPUT_VIDEO = Some damaged_video
   \<and> metadata_finite damaged_video \<and> probe_finite damaged_video
   \<and> both_released (convert_video_to_grayscale [INPUT_VIDEO \<mapsto> damaged_video] INPUT_VIDEO
        GRAYSCALE_VIDEO)
   \<and> both_released (convert_video_to_black_and_white [INPUT_VIDEO \<mapsto> damaged_video]
        INPUT_VIDEO BLACK_AND_WHITE_VIDEO)
   \<and> both_released (convert_video_to_sobel [INPUT_VIDEO \<mapsto> damaged_video] INPUT_VIDEO
        SOBEL_VIDEO)"
proof -
  have h1: "[INPUT_VIDEO \<mapsto> damaged_video] INPUT_VIDEO = Some damaged_video"
    by simp
  have h2: "metadata_finite damaged_video" and h3: "probe_finite damaged_video"
    by (simp_all add: metadata_finite_def probe_finite_def damaged_video_def sample_video_def)
  show ?thesis
    using h1 h2 h3 C5_released_on_every_normal_exit [where fs = "[INPUT_VIDEO \<mapsto> damaged_video]"
        and ip = INPUT_VIDEO and out_g = GRAYSCALE_VIDEO and out_b = BLACK_AND_WHITE_VIDEO
        and out_s = SOBEL_VIDEO]
    by blast
qed

text \<open>
  C6 fails on the grayscale pipeline: its writer gets the frame rate after \<open>int\<close>. On an
  input of 30000/1001 frames a second the grayscale writer is opened at 29 frames a second,
  while the black-and-white and sobel writers are opened at 30000/1001.
\<close>

theorem C6_grayscale_writer_frame_rate_truncated:
  "v_fps ntsc_video = Finite (30000 / 1001)
   \<and> map_option w_fps (run_writer (convert_video_to_grayscale [INPUT_VIDEO \<mapsto> ntsc_video]
        INPUT_VIDEO GRAYSCALE_VIDEO)) = Some (Finite 29)
   \<and> map_option w_fps (run_writer (convert_video_to_black_and_white [INPUT_VIDEO \<mapsto> ntsc_video]
        INPUT_VIDEO BLACK_AND_WHITE_VIDEO)) = Some (Finite (30000 / 1001))
   \<and> map_option w_fps (run_writer (convert_video_to_sobel [INPUT_VIDEO \<mapsto> ntsc_video]
        INPUT_VIDEO SOBEL_VIDEO)) = Some (Finite (30000 / 1001))"
proof -
  note p = sample_video_props [of "Finite (30000 / 1001)"]
  show ?thesis
    unfolding ntsc_video_def
    by (simp add: grayscale_run [OF p] black_and_white_run [OF p(1,3,4)]
        sobel_run [OF p(1,3,4)] p(2) trunc_ntsc)
qed

text \<open>
  C7. In the frame loop of every pipeline a read that fails in the middle of the stream is
  treated as the end of the stream: the loop stops there, having written the transform of
  the frames before the failed read and nothing else, both handles are released, and no
  exception is raised; the frames after the failed read are left unread. The outcome is
  that of the run on the stream that ends before the failed read: the exception raised (none
  when the metadata is finite), the writer with everything written to it, and the releases
  are the same.
\<close>

theorem C7_failed_read_ends_the_loop_like_end_of_stream:
  "convert_loop body (c\<lparr>pending := map Some pre @ None # post\<rparr>) w =
     \<lparr>raised = None, run_capture = c\<lparr>pending := post, cap_released := True\<rparr>,
      run_writer = Some (w\<lparr>written := written w @ map body pre, w_released := True\<rparr>)\<rparr>
   \<and> convert_loop body (c\<lparr>pending := map Some pre\<rparr>) w =
     \<lparr>raised = None, run_capture = c\<lparr>pending := [], cap_released := True\<rparr>,
      run_writer = Some (w\<lparr>written := written w @ map body pre, w_released := True\<rparr>)\<rparr>
   \<and> observable (convert_video_to_grayscale
      (fs(ip \<mapsto> v\<lparr>v_frames := map Some pre @ None # post\<rparr>)) ip out_g) =
     observable (convert_video_to_grayscale (fs(ip \<mapsto> v\<lparr>v_frames := map Some pre\<rparr>)) ip out_g)
   \<and> observable (convert_video_to_black_and_white
      (fs(ip \<mapsto> v\<lparr>v_frames := map Some pre @ None # post\<rparr>)) ip out_b) =
     observable (convert_video_to_black_and_white
      (fs(ip \<mapsto> v\<lparr>v_frames := map Some pre\<rparr>)) ip out_b)
   \<and> observable (convert_video_to_sobel
      (fs(ip \<mapsto> v\<lparr>v_frames := map Some pre @ None # post\<rparr>)) ip out_s) =
     observable (convert_video_to_sobel (fs(ip \<mapsto> v\<lparr>v_frames := map Some pre\<rparr>)) ip out_s)
   \<and> (metadata_finite v \<longrightarrow>
        raised (convert_video_to_grayscale
          (fs(ip \<mapsto> v\<lparr>v_frames := map Some pre @ None # post\<rparr>)) ip out_g) = None
        \<and> written_frames (convert_video_to_grayscale
          (fs(ip \<mapsto> v\<lparr>v_frames := map Some pre @ None # post\<rparr>)) ip out_g) =
            map grayscale_body pre
        \<and> both_released (convert_video_to_grayscale
          (fs(ip \<mapsto> v\<lparr>v_frames := map Some pre @ None # post\<rparr>)) ip out_g))
   \<and> (probe_finite v \<longrightarrow>
        raised (convert_video_to_black_and_white
          (fs(ip \<mapsto> v\<lparr>v_frames := map Some pre @ None # post\<rparr>)) ip out_b) = None
        \<and> written_frames (convert_video_to_black_and_white
          (fs(ip \<mapsto> v\<lparr>v_frames := map Some pre @ None # post\<rparr>)) ip out_b) =
            map black_and_white_body pre
        \<and> both_released (convert_video_to_black_and_white
          (fs(ip \<mapsto> v\<lparr>v_frames := map Some pre @ None # post\<rparr>)) ip out_b)
        \<and> raised (convert_video_to_sobel
          (fs(ip \<mapsto> v\<lparr>v_frames := map Some pre @ None # post\<rparr>)) ip out_s) = None
        \<and> written_frames (convert_video_to_sobel
          (fs(ip \<mapsto> v\<lparr>v_frames := map Some pre @ None # post\<rparr>)) ip out_s) =
            map sobel_body pre
        \<and> both_released (convert_video_to_sobel
          (fs(ip \<mapsto> v\<lparr>v_frames := map Some pre @ None # post\<rparr>)) ip out_s))"
proof -
  let ?v1 = "v\<lparr>v_frames := map Some pre @ None # post\<rparr>"
  let ?fs1 = "fs(ip \<mapsto> ?v1)"
  let ?fs2 = "fs(ip \<mapsto> v\<lparr>v_frames := map Some pre\<rparr>)"
  have loop1: "convert_loop body (c\<lparr>pending := map Some pre @ None # post\<rparr>) w =
     \<lparr>raised = None, run_capture = c\<lparr>pending := post, cap_released := True\<rparr>,
      run_writer = Some (w\<lparr>written := written w @ map body pre, w_released := True\<rparr>)\<rparr>"
    by (simp add: convert_loop_eq)
  have loop2: "convert_loop body (c\<lparr>pending := map Some pre\<rparr>) w =
     \<lparr>raised = None, run_capture = c\<lparr>pending := [], cap_released := True\<rparr>,
      run_writer = Some (w\<lparr>written := written w @ map body pre, w_released := True\<rparr>)\<rparr>"
    by (simp add: convert_loop_eq)
  have m: "\<And>p. capture_get (VideoCapture ?fs1 ip) p = capture_get (VideoCapture ?fs2 ip) p"
    by (simp add: capture_get_frames_irrelevant)
  have f: "frames_read ?fs1 ip = frames_read ?fs2 ip"
    by (simp add: frames_read_def pending_VideoCapture_upd)
  have s: "?fs1 ip = Some ?v1"
    by simp
  have fin: "metadata_finite ?v1 = metadata_finite v" "probe_finite ?v1 = probe_finite v"
    by (simp_all add: metadata_finite_def probe_finite_def)
  have g: "raised (convert_video_to_grayscale ?fs1 ip out_g) = None
        \<and> written_frames (convert_video_to_grayscale ?fs1 ip out_g) = map grayscale_body pre
        \<and> both_released (convert_video_to_grayscale ?fs1 ip out_g)"
    if "metadata_finite v"
    using grayscale_outcome(1) [where fs = ?fs1 and ip = ip and v = ?v1 and op = out_g, OF s]
      that by (simp add: fin)
  have b: "raised (convert_video_to_black_and_white ?fs1 ip out_b) = None
        \<and> written_frames (convert_video_to_black_and_white ?fs1 ip out_b) =
            map black_and_white_body pre
        \<and> both_released (convert_video_to_black_and_white ?fs1 ip out_b)"
    if "probe_finite v"
    using black_and_white_outcome(1) [where fs = ?fs1 and ip = ip and v = ?v1 and op = out_b,
        OF s] that by (simp add: fin)
  have so: "raised (convert_video_to_sobel ?fs1 ip out_s) = None
        \<and> written_frames (convert_video_to_sobel ?fs1 ip out_s) = map sobel_body pre
        \<and> both_released (convert_video_to_sobel ?fs1 ip out_s)"
    if "probe_finite v"
    using sobel_outcome(1) [where fs = ?fs1 and ip = ip and v = ?v1 and op = out_s, OF s]
      that by (simp add: fin)
  show ?thesis
    using loop1 loop2 grayscale_observable_cong [OF m f]
      black_and_white_observable_cong [OF m f] sobel_observable_cong [OF m f] g b so
    by blast
qed

theorem C7_witness:
  "metadata_finite sample_video \<and> probe_finite sample_video
   \<and> raised (convert_video_to_grayscale
        (Map.empty(INPUT_VIDEO \<mapsto>
           sample_video\<lparr>v_frames := map Some [sample_frame] @ None # [Some black_frame]\<rparr>))
        INPUT_VIDEO GRAYSCALE_VIDEO) = None
   \<and> written_frames (convert_video_to_grayscale
        (Map.empty(INPUT_VIDEO \<mapsto>
           sample_video\<lparr>v_frames := map Some [sample_frame] @ None # [Some black_frame]\<rparr>))
        INPUT_VIDEO GRAYSCALE_VIDEO) = map grayscale_body [sample_frame]
   \<and> both_released (convert_video_to_grayscale
        (Map.empty(INPUT_VIDEO \<mapsto>
           sample_video\<lparr>v_frames := map Some [sample_frame] @ None # [Some black_frame]\<rparr>))
        INPUT_VIDEO GRAYSCALE_VIDEO)
   \<and> written_frames (convert_video_to_black_and_white
        (Map.empty(INPUT_VIDEO \<mapsto>
           sample_video\<lparr>v_frames := map Some [sample_frame] @ None # [Some black_frame]\<rparr>))
        INPUT_VIDEO BLACK_AND_WHITE_VIDEO) = map black_and_white_body [sample_frame]
   \<and> observable (convert_video_to_grayscale
        (Map.empty(INPUT_VIDEO \<mapsto>
           sample_video\<lparr>v_frames := map Some [sample_frame] @ None # [Some black_frame]\<rparr>))
        INPUT_VIDEO GRAYSCALE_VIDEO) =
      observable (convert_video_to_grayscale
        (Map.empty(INPUT_VIDEO \<mapsto> sample_video\<lparr>v_frames := map Some [sample_frame]\<rparr>))
        INPUT_VIDEO GRAYSCALE_VIDEO)"
proof -
  have h: "metadata_finite sample_video" and h': "probe_finite sample_video"
    by (simp_all add: metadata_finite_def probe_finite_def sample_video_def)
  show ?thesis
    using h h' C7_failed_read_ends_the_loop_like_end_of_stream [where fs = Map.empty
        and ip = INPUT_VIDEO and v = sample_video and pre = "[sample_frame]"
        and post = "[Some black_frame]" and out_g = GRAYSCALE_VIDEO
        and out_b = BLACK_AND_WHITE_VIDEO and out_s = SOBEL_VIDEO]
    by blast
qed

text \<open>
  C8. In every pipeline the frame written at a position is a fixed function of the frame
  read at that position and of nothing else: not of the other frames, not of the metadata,
  not of the paths. In the black-and-white pipeline the threshold applied to a frame is
  Otsu's threshold of the luminance of that one frame. So two runs, on any two inputs, that
  read the same frame at positions \<open>j\<close> and \<open>k\<close> write the same frame at those positions.
\<close>

theorem C8_written_frame_is_a_function_of_its_input_frame:
  assumes "j < length (frames_read fs1 ip1)" and "k < length (frames_read fs2 ip2)"
    and "frames_read fs1 ip1 ! j = frames_read fs2 ip2 ! k"
  shows "(raised (convert_video_to_grayscale fs1 ip1 op1) = None
          \<and> raised (convert_video_to_grayscale fs2 ip2 op2) = None \<longrightarrow>
            written_frames (convert_video_to_grayscale fs1 ip1 op1) ! j =
              grayscale_body (frames_read fs1 ip1 ! j)
            \<and> written_frames (convert_video_to_grayscale fs1 ip1 op1) ! j =
              written_frames (convert_video_to_grayscale fs2 ip2 op2) ! k)
     \<and> (raised (convert_video_to_black_and_white fs1 ip1 op1) = None
          \<and> raised (convert_video_to_black_and_white fs2 ip2 op2) = None \<longrightarrow>
            written_frames (convert_video_to_black_and_white fs1 ip1 op1) ! j =
              black_and_white_body (frames_read fs1 ip1 ! j)
            \<and> written_frames (convert_video_to_black_and_white fs1 ip1 op1) ! j =
              Color (cvtColor_GRAY2RGB
                (map (map (\<lambda>x. if otsu (cvtColor_BGR2GRAY (frames_read fs1 ip1 ! j)) < unat x
                                then 255 else 0))
                   (cvtColor_BGR2GRAY (frames_read fs1 ip1 ! j))))
            \<and> written_frames (convert_video_to_black_and_white fs1 ip1 op1) ! j =
              written_frames (convert_video_to_black_and_white fs2 ip2 op2) ! k)
     \<and> (raised (convert_video_to_sobel fs1 ip1 op1) = None
          \<and> raised (convert_video_to_sobel fs2 ip2 op2) = None \<longrightarrow>
            written_frames (convert_video_to_sobel fs1 ip1 op1) ! j =
              sobel_body (frames_read fs1 ip1 ! j)
            \<and> written_frames (convert_video_to_sobel fs1 ip1 op1) ! j =
              written_frames (convert_video_to_sobel fs2 ip2 op2) ! k)"
proof -
  have otsu_of_frame: "black_and_white_body f =
      Color (cvtColor_GRAY2RGB
        (map (map (\<lambda>x. if otsu (cvtColor_BGR2GRAY f) < unat x then 255 else 0))
           (cvtColor_BGR2GRAY f)))" for f
    by (simp add: black_and_white_body_def threshold_BINARY_OTSU_def Let_def)
  show ?thesis
    using assms otsu_of_frame [of "frames_read fs2 ip2 ! k"]
    by (simp add: grayscale_written black_and_white_written sobel_written
        frames_read_def [symmetric])
qed

theorem C8_witness:
  "(1::nat) < length (frames_read [INPUT_VIDEO \<mapsto> sample_video] INPUT_VIDEO)
   \<and> (0::nat) < length (frames_read [INPUT_VIDEO \<mapsto> sample_video\<lparr>v_frames :=
        [Some black_frame], v_fps := Finite 25\<rparr>] INPUT_VIDEO)
   \<and> written_frames (convert_video_to_black_and_white [INPUT_VIDEO \<mapsto> sample_video]
        INPUT_VIDEO BLACK_AND_WHITE_VIDEO) ! 1 =
     written_frames (convert_video_to_black_and_white [INPUT_VIDEO \<mapsto> sample_video\<lparr>v_frames :=
        [Some black_frame], v_fps := Finite 25\<rparr>] INPUT_VIDEO SOBEL_VIDEO) ! 0"
proof -
  let ?fs1 = "[INPUT_VIDEO \<mapsto> sample_video]"
  let ?v2 = "sample_video\<lparr>v_frames := [Some black_frame], v_fps := Finite 25\<rparr>"
  let ?fs2 = "[INPUT_VIDEO \<mapsto> ?v2]"
  have h1: "(1::nat) < length (frames_read ?fs1 INPUT_VIDEO)"
    by (simp add: frames_read_def VideoCapture_def sample_video_def)
  have h2: "(0::nat) < length (frames_read ?fs2 INPUT_VIDEO)"
    by (simp add: frames_read_def VideoCapture_def sample_video_def)
  have h3: "frames_read ?fs1 INPUT_VIDEO ! 1 = frames_read ?fs2 INPUT_VIDEO ! 0"
    by (simp add: frames_read_def VideoCapture_def sample_video_def)
  have m1: "metadata_finite sample_video"
    by (simp add: metadata_finite_def sample_video_def)
  have m2: "metadata_finite ?v2"
    by (simp add: metadata_finite_def sample_video_def)
  have r1: "raised (convert_video_to_black_and_white ?fs1 INPUT_VIDEO BLACK_AND_WHITE_VIDEO) = None"
    using m1 by (intro raised_of_finite_metadata(2) [where v = sample_video]) simp_all
  have r2: "raised (convert_video_to_black_and_white ?fs2 INPUT_VIDEO SOBEL_VIDEO) = None"
    using m2 by (intro raised_of_finite_metadata(2) [where v = ?v2]) simp_all
  show ?thesis
    using h1 h2 r1 r2
      C8_written_frame_is_a_function_of_its_input_frame [OF h1 h2 h3,
        where ?op1.0 = BLACK_AND_WHITE_VIDEO and ?op2.0 = SOBEL_VIDEO]
    by blast
qed

text \<open>
  C9 fails in its last part, by the same truncation: on an input of 24000/1001 frames a
  second the single-channel writer of the grayscale pipeline is opened at 23 frames a
  second.
\<close>

theorem C9_grayscale_sink_frame_rate_truncated:
  "v_fps film_video = Finite (24000 / 1001)
   \<and> map_option (\<lambda>w. (w_isColor w, w_fps w, w_size w))
        (run_writer (convert_video_to_grayscale [INPUT_VIDEO \<mapsto> film_video]
           INPUT_VIDEO GRAYSCALE_VIDEO)) = Some (False, Finite 23, (2, 2))"
proof -
  note p = sample_video_props [of "Finite (24000 / 1001)"]
  have t: "trunc_toward_zero 2 = 2"
    using trunc_toward_zero_of_int [of 2] by simp
  show ?thesis
    unfolding film_video_def
    by (simp add: grayscale_run [OF p] trunc_film t)
qed

text \<open>
  C10 as stated fails: \<open>get_video_parameters\<close> is not total. On a capture whose frame rate
  reads as NaN, \<open>int\<close> raises \<open>ValueError\<close>.
\<close>

theorem C10_counterexample_get_video_parameters_raises:
  "get_video_parameters (VideoCapture [INPUT_VIDEO \<mapsto> nan_video] INPUT_VIDEO) = Inl ValueError"
  by (simp add: get_video_parameters_def bind_err_def capture_get_def VideoCapture_def
      nan_video_def sample_video_def)

text \<open>
  C10, amended. On a capture whose codec tag, frame rate, height and width are all finite,
  \<open>get_video_parameters\<close> returns a dictionary with exactly the four keys \<open>fourcc\<close>, \<open>fps\<close>,
  \<open>height\<close> and \<open>width\<close>, each the integer truncation toward zero of the capture property;
  it raises exactly when one of the four is NaN or infinite. So a non-integer frame rate is
  truncated toward zero before it is passed to the grayscale writer, while the
  black-and-white and sobel pipelines probe their metadata separately and pass the frame
  rate untruncated.
\<close>

theorem C10_get_video_parameters_truncates_finite_metadata:
  assumes "c = VideoCapture fs ip"
    and "capture_get c CAP_PROP_FOURCC = Finite a"
    and "capture_get c CAP_PROP_FPS = Finite b"
    and "capture_get c CAP_PROP_FRAME_HEIGHT = Finite h"
    and "capture_get c CAP_PROP_FRAME_WIDTH = Finite w"
  shows "(\<exists>d. get_video_parameters c = Inr d
            \<and> dom d = {''fourcc'', ''fps'', ''height'', ''width''}
            \<and> d ''fourcc'' = Some (PyInt (trunc_toward_zero a))
            \<and> d ''fps'' = Some (PyInt (trunc_toward_zero b))
            \<and> d ''height'' = Some (PyInt (trunc_toward_zero h))
            \<and> d ''width'' = Some (PyInt (trunc_toward_zero w)))
     \<and> \<bar>of_int (trunc_toward_zero b)\<bar> \<le> \<bar>b\<bar> \<and> \<bar>b - of_int (trunc_toward_zero b)\<bar> < 1
     \<and> map_option w_fps (run_writer (convert_video_to_grayscale fs ip out_g)) =
          Some (Finite (of_int (trunc_toward_zero b)))
     \<and> map_option w_fps (run_writer (convert_video_to_black_and_white fs ip out_b)) =
          Some (Finite b)
     \<and> map_option w_fps (run_writer (convert_video_to_sobel fs ip out_s)) = Some (Finite b)
     \<and> ((\<exists>e. get_video_parameters c' = Inl e) \<longleftrightarrow>
          \<not> (is_finite (capture_get c' CAP_PROP_FOURCC)
             \<and> is_finite (capture_get c' CAP_PROP_FPS)
             \<and> is_finite (capture_get c' CAP_PROP_FRAME_HEIGHT)
             \<and> is_finite (capture_get c' CAP_PROP_FRAME_WIDTH)))"
proof -
  note fin = assms(2-5) [unfolded assms(1)]
  have d: "\<exists>d. get_video_parameters c = Inr d
            \<and> dom d = {''fourcc'', ''fps'', ''height'', ''width''}
            \<and> d ''fourcc'' = Some (PyInt (trunc_toward_zero a))
            \<and> d ''fps'' = Some (PyInt (trunc_toward_zero b))
            \<and> d ''height'' = Some (PyInt (trunc_toward_zero h))
            \<and> d ''width'' = Some (PyInt (trunc_toward_zero w))"
    unfolding get_video_parameters_finite [OF assms(2-5)] by auto
  have t: "\<bar>of_int (trunc_toward_zero b)\<bar> \<le> \<bar>b\<bar> \<and> \<bar>b - of_int (trunc_toward_zero b)\<bar> < 1"
    by (rule trunc_toward_zero_bounds)
  have g: "map_option w_fps (run_writer (convert_video_to_grayscale fs ip out_g)) =
          Some (Finite (of_int (trunc_toward_zero b)))"
    by (simp add: grayscale_run [OF fin])
  have bw: "map_option w_fps (run_writer (convert_video_to_black_and_white fs ip out_b)) =
          Some (Finite b)"
    by (simp add: black_and_white_run [OF fin(1,3,4)] fin(2))
  have s: "map_option w_fps (run_writer (convert_video_to_sobel fs ip out_s)) = Some (Finite b)"
    by (simp add: sobel_run [OF fin(1,3,4)] fin(2))
  show ?thesis
    using d t g bw s get_video_parameters_raises_iff [of c'] by blast
qed

theorem C10_witness:
  "capture_get (VideoCapture [INPUT_VIDEO \<mapsto> ntsc_video] INPUT_VIDEO) CAP_PROP_FPS =
     Finite (30000 / 1001)
   \<and> (\<exists>d. get_video_parameters (VideoCapture [INPUT_VIDEO \<mapsto> ntsc_video] INPUT_VIDEO) = Inr d
        \<and> dom d = {''fourcc'', ''fps'', ''height'', ''width''}
        \<and> d ''fps'' = Some (PyInt 29))
   \<and> map_option w_fps (run_writer (convert_video_to_black_and_white
        [INPUT_VIDEO \<mapsto> ntsc_video] INPUT_VIDEO BLACK_AND_WHITE_VIDEO)) =
      Some (Finite (30000 / 1001))"
proof -
  note p = sample_video_props [of "Finite (30000 / 1001)", folded ntsc_video_def]
  show ?thesis
    using p(2)
      C10_get_video_parameters_truncates_finite_metadata [OF refl p,
        where out_b = BLACK_AND_WHITE_VIDEO]
    unfolding trunc_ntsc by blast
qed

end
